theory Spec2Isabelle
  imports Complex_Main "HOL-Library.Char_ord" "HOL-Library.List_Lexorder"
begin

section \<open>Values of the JavaScript runtime\<close>

text \<open>
  Sessions, requests, responses and templates are JSON trees.  An object is an association
  list in the order \<open>Object.keys\<close> enumerates it; a number is a real (the value of the
  double); a string is a list of characters.  A value that may be \<open>undefined\<close> is a
  \<open>json option\<close>.

  \<open>String.prototype.toLowerCase\<close> belongs to the runtime (it follows the Unicode case
  mappings) and is a parameter, \<open>toLowerCase\<close>, of every function that reaches it.
\<close>

datatype json =
    JNull
  | JBool bool
  | JNum real
  | JStr string
  | JArr "json list"
  | JObj "(string \<times> json) list"

fun typeof :: "json \<Rightarrow> string" where
  "typeof JNull = ''object''"
| "typeof (JBool b) = ''boolean''"
| "typeof (JNum n) = ''number''"
| "typeof (JStr s) = ''string''"
| "typeof (JArr xs) = ''object''"
| "typeof (JObj kvs) = ''object''"

fun typeof_opt :: "json option \<Rightarrow> string" where
  "typeof_opt None = ''undefined''"
| "typeof_opt (Some v) = typeof v"

text \<open>Truthiness, as used by \<open>if (x)\<close>, \<open>x || y\<close> and \<open>a && b\<close>.\<close>

fun truthy :: "json \<Rightarrow> bool" where
  "truthy JNull = False"
| "truthy (JBool b) = b"
| "truthy (JNum n) = (n \<noteq> 0)"
| "truthy (JStr s) = (s \<noteq> [])"
| "truthy (JArr xs) = True"
| "truthy (JObj kvs) = True"

fun truthy_opt :: "json option \<Rightarrow> bool" where
  "truthy_opt None = False"
| "truthy_opt (Some v) = truthy v"

fun startsWith :: "string \<Rightarrow> string \<Rightarrow> bool" where
  "startsWith s [] = True"
| "startsWith [] (p # ps) = False"
| "startsWith (c # cs) (p # ps) = (c = p \<and> startsWith cs ps)"

fun str_includes :: "string \<Rightarrow> string \<Rightarrow> bool" where
  "str_includes [] sub = (sub = [])"
| "str_includes (c # cs) sub = (startsWith (c # cs) sub \<or> str_includes cs sub)"

definition digit_char :: "nat \<Rightarrow> char" where
  "digit_char d = ''0123456789'' ! d"

function string_of_nat :: "nat \<Rightarrow> string" where
  "string_of_nat n =
     (if n < 10 then [digit_char n]
      else string_of_nat (n div 10) @ [digit_char (n mod 10)])"
  by pat_completeness auto
termination
  by (relation "measure id") auto

declare string_of_nat.simps [simp del]

text \<open>The keys \<open>Object.keys\<close> gives for an array: its indices in decimal.\<close>

fun index_keys_from :: "nat \<Rightarrow> 'a list \<Rightarrow> (string \<times> 'a) list" where
  "index_keys_from i [] = []"
| "index_keys_from i (x # xs) = (string_of_nat i, x) # index_keys_from (Suc i) xs"

definition index_keys :: "'a list \<Rightarrow> (string \<times> 'a) list" where
  "index_keys xs = index_keys_from 0 xs"

text \<open>
  \<open>v[k]\<close> for an own property \<open>k\<close>, and the value reached by following a list of
  property names from the root.
\<close>

fun own_property :: "json \<Rightarrow> string \<Rightarrow> json option" where
  "own_property (JObj kvs) k = map_of kvs k"
| "own_property (JArr xs) k = map_of (index_keys xs) k"
| "own_property v k = None"

fun lookup_path :: "json \<Rightarrow> string list \<Rightarrow> json option" where
  "lookup_path v [] = Some v"
| "lookup_path v (k # ks) =
     (case own_property v k of None \<Rightarrow> None | Some w \<Rightarrow> lookup_path w ks)"

text \<open>
  What a value is at its root, without what it holds: an array of its length, an object
  with its keys in their order, a primitive value itself.
\<close>

fun node :: "json \<Rightarrow> json" where
  "node (JArr xs) = JArr (map (\<lambda>x. JNull) xs)"
| "node (JObj kvs) = JObj (map (\<lambda>(k, v). (k, JNull)) kvs)"
| "node v = v"

section \<open>The recorder (\<open>SessionRecorder\<close>, interaction\_tagger.js)\<close>

record recorder_options =
  includeHeaders :: bool
  includeBody :: bool
  sensitiveHeaders :: "string list"
  sensitiveFields :: "string list"

definition default_recorder_options :: recorder_options where
  "default_recorder_options =
     \<lparr> includeHeaders = True, includeBody = True,
       sensitiveHeaders = [''authorization'', ''cookie'', ''set-cookie''],
       sensitiveFields = [''password'', ''token'', ''secret'', ''key'', ''authorization''] \<rparr>"

definition REDACTED :: json where
  "REDACTED = JStr ''[REDACTED]''"

text \<open>
  \<open>filterSensitiveHeaders\<close>: a shallow copy of the headers in which each listed header is
  overwritten when its value is truthy.  The lookup is by the exact (lower-case) name, as
  Node delivers header names.
\<close>

definition redact_header :: "string \<Rightarrow> (string \<times> json) list \<Rightarrow> (string \<times> json) list" where
  "redact_header h hs =
     (if truthy_opt (map_of hs h)
      then map (\<lambda>(k, v). if k = h then (k, REDACTED) else (k, v)) hs
      else hs)"

definition filterSensitiveHeaders ::
  "recorder_options \<Rightarrow> (string \<times> json) list \<Rightarrow> (string \<times> json) list" where
  "filterSensitiveHeaders opts headers = fold redact_header (sensitiveHeaders opts) headers"

text \<open>
  \<open>sanitizeData\<close>: the deep clone through \<open>JSON.parse(JSON.stringify(data))\<close> is the
  identity on JSON trees; \<open>recursiveSanitize\<close> then walks objects and arrays alike
  through \<open>Object.keys\<close>, so an array is visited under its index keys, and overwrites
  in place: an array stays an array and an object keeps its keys in their order.
\<close>

definition is_sensitive_key :: "(string \<Rightarrow> string) \<Rightarrow> string list \<Rightarrow> string \<Rightarrow> bool" where
  "is_sensitive_key toLowerCase fs key =
     list_ex (\<lambda>field. str_includes (toLowerCase key) field) fs"

fun recursiveSanitize :: "(string \<Rightarrow> string) \<Rightarrow> string list \<Rightarrow> json \<Rightarrow> json"
  and sanitize_fields ::
    "(string \<Rightarrow> string) \<Rightarrow> string list \<Rightarrow> (string \<times> json) list \<Rightarrow> (string \<times> json) list"
  and sanitize_elems :: "(string \<Rightarrow> string) \<Rightarrow> string list \<Rightarrow> nat \<Rightarrow> json list \<Rightarrow> json list"
where
  "recursiveSanitize toLowerCase fs (JObj kvs) = JObj (sanitize_fields toLowerCase fs kvs)"
| "recursiveSanitize toLowerCase fs (JArr xs) = JArr (sanitize_elems toLowerCase fs 0 xs)"
| "recursiveSanitize toLowerCase fs JNull = JNull"
| "recursiveSanitize toLowerCase fs (JBool b) = JBool b"
| "recursiveSanitize toLowerCase fs (JNum n) = JNum n"
| "recursiveSanitize toLowerCase fs (JStr s) = JStr s"
| "sanitize_fields toLowerCase fs [] = []"
| "sanitize_fields toLowerCase fs ((k, v) # kvs) =
     (if is_sensitive_key toLowerCase fs k then (k, REDACTED)
      else (k, recursiveSanitize toLowerCase fs v))
       # sanitize_fields toLowerCase fs kvs"
| "sanitize_elems toLowerCase fs i [] = []"
| "sanitize_elems toLowerCase fs i (x # xs) =
     (if is_sensitive_key toLowerCase fs (string_of_nat i) then REDACTED
      else recursiveSanitize toLowerCase fs x)
       # sanitize_elems toLowerCase fs (Suc i) xs"

definition sanitizeData :: "(string \<Rightarrow> string) \<Rightarrow> recorder_options \<Rightarrow> json \<Rightarrow> json" where
  "sanitizeData toLowerCase opts data = recursiveSanitize toLowerCase (sensitiveFields opts) data"

text \<open>What Express hands to the recorder, and what \<open>captureRequest\<close> keeps of it.\<close>

record incoming_request =
  req_method :: string
  req_path :: string
  req_query :: "json option"
  req_headers :: "(string \<times> json) list"
  req_body :: "json option"

record captured_request =
  c_method :: string
  c_path :: string
  c_query :: json
  c_headers :: "(string \<times> json) list option"
  c_body :: "json option"

definition captureRequest ::
  "(string \<Rightarrow> string) \<Rightarrow> recorder_options \<Rightarrow> incoming_request \<Rightarrow> captured_request" where
  "captureRequest toLowerCase opts req =
     \<lparr> c_method = req_method req,
       c_path = req_path req,
       c_query = (case req_query req of
                  Some q \<Rightarrow> if truthy q then q else JObj []
                | None \<Rightarrow> JObj []),
       c_headers = (if includeHeaders opts
                  then Some (filterSensitiveHeaders opts (req_headers req)) else None),
       c_body = (case req_body req of
                 Some b \<Rightarrow>
                   if includeBody opts \<and> truthy b then Some (sanitizeData toLowerCase opts b)
                   else None
               | None \<Rightarrow> None) \<rparr>"

text \<open>
  \<open>captureResponse\<close>: the status, the headers \<open>res.getHeaders()\<close> (or \<open>res.headers\<close>)
  gives, and the body when it is truthy, all as they are.
\<close>

record incoming_response =
  res_statusCode :: int
  res_statusMessage :: "string option"
  res_headers :: "(string \<times> json) list option"
  res_body :: "json option"

record captured_response =
  cr_statusCode :: int
  cr_statusMessage :: "string option"
  cr_headers :: "(string \<times> json) list option"
  cr_body :: "json option"

definition captureResponse :: "recorder_options \<Rightarrow> incoming_response \<Rightarrow> captured_response" where
  "captureResponse opts res =
     \<lparr> cr_statusCode = res_statusCode res,
       cr_statusMessage = res_statusMessage res,
       cr_headers = (if includeHeaders opts then res_headers res else None),
       cr_body = (case res_body res of
                  Some b \<Rightarrow> if includeBody opts \<and> truthy b then Some b else None
                | None \<Rightarrow> None) \<rparr>"

text \<open>
  \<open>normalizeForHashing\<close>: arrays element-wise, objects rebuilt with their keys taken in
  sorted order, everything else unchanged.
\<close>

fun normalizeForHashing :: "json \<Rightarrow> json" where
  "normalizeForHashing (JArr xs) = JArr (map normalizeForHashing xs)"
| "normalizeForHashing (JObj kvs) =
     (let normalized = map (\<lambda>(k, v). (k, normalizeForHashing v)) kvs
      in JObj (map (\<lambda>k. (k, the (map_of normalized k))) (sort (map fst kvs))))"
| "normalizeForHashing JNull = JNull"
| "normalizeForHashing (JBool b) = JBool b"
| "normalizeForHashing (JNum n) = JNum n"
| "normalizeForHashing (JStr s) = JStr s"

text \<open>
  \<open>generateContentHash\<close> of a non-string argument.  \<open>JSON.stringify\<close> and the
  SHA-256 digest of the \<open>crypto\<close> module belong to the runtime and are parameters.
\<close>

definition generateContentHash ::
  "(json \<Rightarrow> string) \<Rightarrow> (string \<Rightarrow> string) \<Rightarrow> json \<Rightarrow> string" where
  "generateContentHash JSON_stringify sha256 data =
     sha256 (JSON_stringify (normalizeForHashing data))"

text \<open>
  The object \<open>recordInteraction\<close> hashes: method, path, query and body of the captured
  request.  A body that was not captured is \<open>undefined\<close> and is dropped by
  \<open>JSON.stringify\<close>, so the field is left out.
\<close>

definition hash_input :: "captured_request \<Rightarrow> json" where
  "hash_input r =
     JObj ([(''method'', JStr (c_method r)), (''path'', JStr (c_path r)), (''query'', c_query r)]
           @ (case c_body r of Some b \<Rightarrow> [(''body'', b)] | None \<Rightarrow> []))"

record interaction_record =
  i_timestamp :: string
  requestHash :: string
  i_request :: captured_request

definition recordInteraction ::
  "(json \<Rightarrow> string) \<Rightarrow> (string \<Rightarrow> string) \<Rightarrow> (string \<Rightarrow> string) \<Rightarrow> recorder_options
     \<Rightarrow> string \<Rightarrow> incoming_request \<Rightarrow> interaction_record" where
  "recordInteraction JSON_stringify sha256 toLowerCase opts now req =
     (let request = captureRequest toLowerCase opts req
      in \<lparr> i_timestamp = now,
           requestHash = generateContentHash JSON_stringify sha256 (hash_input request),
           i_request = request \<rparr>)"

section \<open>The recorder with cookies (\<open>SessionRecorder\<close>, part\_003)\<close>

text \<open>
  A second \<open>SessionRecorder\<close> keeps the request's \<open>url\<close> and cookies as well.  Its
  lists of sensitive names are fixed in the functions, and its \<open>captureResponse\<close>
  passes the response body through \<open>sanitizeData\<close> too.
\<close>

record recorder_options_003 =
  includeHeaders_003 :: bool
  includeBody_003 :: bool
  includeCookies :: bool

definition default_recorder_options_003 :: recorder_options_003 where
  "default_recorder_options_003 =
     \<lparr> includeHeaders_003 = True, includeBody_003 = True, includeCookies = True \<rparr>"

definition filterSensitiveHeaders_003 :: "(string \<times> json) list \<Rightarrow> (string \<times> json) list" where
  "filterSensitiveHeaders_003 headers =
     fold redact_header [''authorization'', ''cookie'', ''set-cookie''] headers"

definition filterSensitiveCookies ::
  "(string \<Rightarrow> string) \<Rightarrow> (string \<times> json) list \<Rightarrow> (string \<times> json) list" where
  "filterSensitiveCookies toLowerCase cookies =
     map (\<lambda>(cookie, v).
            if is_sensitive_key toLowerCase [''session'', ''auth'', ''token''] cookie
            then (cookie, REDACTED) else (cookie, v))
       cookies"

definition sanitizeData_003 :: "(string \<Rightarrow> string) \<Rightarrow> json \<Rightarrow> json" where
  "sanitizeData_003 toLowerCase data =
     recursiveSanitize toLowerCase
       [''password'', ''token'', ''secret'', ''key'', ''authorization''] data"

record incoming_request_003 = incoming_request +
  req_url :: string
  req_cookies :: "(string \<times> json) list option"

record captured_request_003 = captured_request +
  c_url :: string
  c_cookies :: "(string \<times> json) list option"

definition captureRequest_003 ::
  "(string \<Rightarrow> string) \<Rightarrow> recorder_options_003 \<Rightarrow> incoming_request_003
     \<Rightarrow> captured_request_003" where
  "captureRequest_003 toLowerCase opts req =
     \<lparr> c_method = req_method req,
       c_path = req_path req,
       c_query = (case req_query req of
                  Some q \<Rightarrow> if truthy q then q else JObj []
                | None \<Rightarrow> JObj []),
       c_headers = (if includeHeaders_003 opts
                  then Some (filterSensitiveHeaders_003 (req_headers req)) else None),
       c_body = (case req_body req of
                 Some b \<Rightarrow>
                   if includeBody_003 opts \<and> truthy b then Some (sanitizeData_003 toLowerCase b)
                   else None
               | None \<Rightarrow> None),
       c_url = req_url req,
       c_cookies = (case req_cookies req of
                    Some cookies \<Rightarrow>
                      if includeCookies opts then Some (filterSensitiveCookies toLowerCase cookies)
                      else None
                  | None \<Rightarrow> None) \<rparr>"

definition captureResponse_003 ::
  "(string \<Rightarrow> string) \<Rightarrow> recorder_options_003 \<Rightarrow> incoming_response \<Rightarrow> captured_response" where
  "captureResponse_003 toLowerCase opts res =
     \<lparr> cr_statusCode = res_statusCode res,
       cr_statusMessage = res_statusMessage res,
       cr_headers = (if includeHeaders_003 opts then res_headers res else None),
       cr_body = (case res_body res of
                  Some b \<Rightarrow>
                    if includeBody_003 opts \<and> truthy b then Some (sanitizeData_003 toLowerCase b)
                    else None
                | None \<Rightarrow> None) \<rparr>"

section \<open>Trees up to key order, and example requests\<close>

text \<open>
  Two JSON trees are the same up to the order of object keys: equal trees, arrays related
  element-wise, objects with the same set of (distinct) keys and related values.
\<close>

inductive keyperm :: "json \<Rightarrow> json \<Rightarrow> bool" where
  kp_refl: "keyperm v v"
| kp_arr: "list_all2 keyperm xs ys \<Longrightarrow> keyperm (JArr xs) (JArr ys)"
| kp_obj: "distinct (map fst kvs) \<Longrightarrow> distinct (map fst kvs') \<Longrightarrow>
           set (map fst kvs) = set (map fst kvs') \<Longrightarrow>
           (\<forall>k. k \<in> set (map fst kvs) \<longrightarrow> keyperm (the (map_of kvs k)) (the (map_of kvs' k))) \<Longrightarrow>
           keyperm (JObj kvs) (JObj kvs')"

text \<open>Two recorded requests used as examples, and stand-ins for the runtime's functions.\<close>

definition ex_req_empty_auth :: incoming_request where
  "ex_req_empty_auth = \<lparr> req_method = ''GET'', req_path = ''/api/products'',
      req_query = None,
      req_headers = [(''authorization'', JStr []), (''accept'', JStr ''*/*'')],
      req_body = None \<rparr>"

definition ex_req_login :: incoming_request where
  "ex_req_login = \<lparr> req_method = ''POST'', req_path = ''/api/login'',
      req_query = None,
      req_headers = [(''cookie'', JStr ''sid=42''), (''accept'', JStr ''*/*'')],
      req_body = Some (JObj [(''user'', JStr ''ann''),
                             (''profile'', JObj [(''apiKey'', JStr ''k-1''), (''age'', JNum 30)]),
                             (''items'', JArr [JObj [(''Password'', JStr ''pw'')]])]) \<rparr>"

definition ex_req1 :: incoming_request where
  "ex_req1 = \<lparr> req_method = ''POST'', req_path = ''/api/orders'',
      req_query = Some (JObj [(''page'', JStr ''1''), (''sort'', JStr ''asc'')]),
      req_headers = [(''authorization'', JStr ''Bearer abc''), (''x-request-id'', JStr ''1'')],
      req_body = Some (JObj [(''item'', JStr ''book''), (''qty'', JNum 2)]) \<rparr>"

definition ex_req2 :: incoming_request where
  "ex_req2 = \<lparr> req_method = ''POST'', req_path = ''/api/orders'',
      req_query = Some (JObj [(''sort'', JStr ''asc''), (''page'', JStr ''1'')]),
      req_headers = [(''user-agent'', JStr ''curl'')],
      req_body = Some (JObj [(''qty'', JNum 2), (''item'', JStr ''book'')]) \<rparr>"

fun ex_stringify :: "json \<Rightarrow> string" where
  "ex_stringify (JObj kvs) = concat (map fst kvs)"
| "ex_stringify v = []"

definition ex_digest :: "string \<Rightarrow> string" where
  "ex_digest s = rev s"

section \<open>The structural diff (\<open>deepDiff.diff\<close>)\<close>

text \<open>
  The verifier delegates the tree comparison to the \<open>deep-diff\<close> package.  The
  package is a dependency, not part of the repository; the functions below follow its
  \<open>deepDiff\<close> routine on JSON trees (no dates, regular expressions, cycles or
  pre-filters).  A difference record carries a \<open>path\<close> property only when the path is
  not empty, so a difference located at the root has none.
\<close>

datatype pathelem = PKey string | PIdx nat

datatype diff_item =
    ItemNew json
  | ItemDeleted json
  | ItemEdit json json

datatype diff =
    DiffNew "pathelem list option" json
  | DiffDeleted "pathelem list option" json
  | DiffEdit "pathelem list option" json json
  | DiffArray "pathelem list option" nat diff_item

definition mk_path :: "pathelem list \<Rightarrow> pathelem list option" where
  "mk_path p = (if p = [] then None else Some p)"

fun deepDiff :: "json \<Rightarrow> json \<Rightarrow> pathelem list \<Rightarrow> diff list"
  and deepDiff_elems :: "json list \<Rightarrow> json list \<Rightarrow> pathelem list \<Rightarrow> nat \<Rightarrow> diff list"
  and deepDiff_fields ::
    "(string \<times> json) list \<Rightarrow> (string \<times> json) list \<Rightarrow> pathelem list \<Rightarrow> diff list"
where
  "deepDiff (JArr xs) r p =
     (case r of
        JArr ys \<Rightarrow> deepDiff_elems xs ys p 0
      | _ \<Rightarrow> [DiffEdit (mk_path p) (JArr xs) r])"
| "deepDiff (JObj kvs) r p =
     (case r of
        JObj kvs' \<Rightarrow>
          deepDiff_fields kvs kvs' p
          @ map (\<lambda>(k, w). DiffNew (mk_path (p @ [PKey k])) w)
              (filter (\<lambda>(k, w). k \<notin> set (map fst kvs) \<and> k \<noteq> []) kvs')
      | _ \<Rightarrow> [DiffEdit (mk_path p) (JObj kvs) r])"
| "deepDiff JNull r p = (if r = JNull then [] else [DiffEdit (mk_path p) JNull r])"
| "deepDiff (JBool b) r p = (if r = JBool b then [] else [DiffEdit (mk_path p) (JBool b) r])"
| "deepDiff (JNum n) r p = (if r = JNum n then [] else [DiffEdit (mk_path p) (JNum n) r])"
| "deepDiff (JStr s) r p = (if r = JStr s then [] else [DiffEdit (mk_path p) (JStr s) r])"
| "deepDiff_elems [] ys p i =
     rev (map (\<lambda>(j, y). DiffArray (mk_path p) j (ItemNew y)) (zip [i ..< i + length ys] ys))"
| "deepDiff_elems (x # xs) [] p i =
     rev (map (\<lambda>(j, y). DiffArray (mk_path p) j (ItemDeleted y))
            (zip [i ..< i + length (x # xs)] (x # xs)))"
| "deepDiff_elems (x # xs) (y # ys) p i =
     deepDiff_elems xs ys p (Suc i) @ deepDiff x y (p @ [PIdx i])"
| "deepDiff_fields [] kvs' p = []"
| "deepDiff_fields ((k, v) # kvs) kvs' p =
     (case map_of kvs' k of
        Some w \<Rightarrow> deepDiff v w (p @ [PKey k])
      | None \<Rightarrow> [DiffDeleted (mk_path (p @ [PKey k])) v])
     @ deepDiff_fields kvs kvs' p"

text \<open>\<open>deepDiff.diff(lhs, rhs) || []\<close>.\<close>

definition deepDiff_diff :: "json \<Rightarrow> json \<Rightarrow> diff list" where
  "deepDiff_diff lhs rhs = deepDiff lhs rhs []"

text \<open>\<open>diff.path.join('.')\<close>, for a record that has a path.\<close>

fun pathelem_str :: "pathelem \<Rightarrow> string" where
  "pathelem_str (PKey k) = k"
| "pathelem_str (PIdx i) = string_of_nat i"

fun join_dot :: "string list \<Rightarrow> string" where
  "join_dot [] = []"
| "join_dot [s] = s"
| "join_dot (s # t # ss) = s @ ''.'' @ join_dot (t # ss)"

definition path_join :: "pathelem list \<Rightarrow> string" where
  "path_join p = join_dot (map pathelem_str p)"

fun diff_path :: "diff \<Rightarrow> pathelem list option" where
  "diff_path (DiffNew p r) = p"
| "diff_path (DiffDeleted p l) = p"
| "diff_path (DiffEdit p l r) = p"
| "diff_path (DiffArray p i it) = p"

text \<open>A JSON tree as JavaScript can hold it: no object has a key twice.\<close>

fun wf_json :: "json \<Rightarrow> bool" where
  "wf_json (JArr xs) = list_all wf_json xs"
| "wf_json (JObj kvs) = (distinct (map fst kvs) \<and> list_all (\<lambda>kv. wf_json (snd kv)) kvs)"
| "wf_json v = True"

section \<open>The verifier (\<open>SnapshotVerifier\<close>)\<close>

text \<open>
  An entry of \<open>ignoreFields\<close> is a string, a regular expression (its \<open>test\<close>
  function) or anything else.
\<close>

datatype field_pattern = PatString string | PatRegExp "string \<Rightarrow> bool" | PatOther

record verifier_options =
  ignoreHeaders :: "string list"
  ignoreFields :: "field_pattern list"

definition default_verifier_options :: verifier_options where
  "default_verifier_options =
     \<lparr> ignoreHeaders = [''date'', ''content-length'', ''etag'', ''connection''],
       ignoreFields = [] \<rparr>"

record response =
  statusCode :: int
  r_headers :: "(string \<times> json) list option"
  r_body :: "json option"

subsection \<open>\<open>normalizeForComparison(response)\<close>\<close>

text \<open>\<open>obj[k] = v\<close>: an existing key keeps its place, a new key goes last.\<close>

definition obj_assign :: "string \<Rightarrow> json \<Rightarrow> (string \<times> json) list \<Rightarrow> (string \<times> json) list" where
  "obj_assign k v kvs =
     (if k \<in> set (map fst kvs)
      then map (\<lambda>(k', v'). if k' = k then (k', v) else (k', v')) kvs
      else kvs @ [(k, v)])"

definition normalize_headers ::
  "(string \<Rightarrow> string) \<Rightarrow> verifier_options \<Rightarrow> (string \<times> json) list
     \<Rightarrow> (string \<times> json) list" where
  "normalize_headers toLowerCase opts hs =
     fold (\<lambda>(key, v) normalizedHeaders.
             let lowerKey = toLowerCase key
             in if lowerKey \<in> set (ignoreHeaders opts) then normalizedHeaders
                else obj_assign lowerKey v normalizedHeaders)
          hs []"

text \<open>
  The clone through \<open>JSON.parse(JSON.stringify(response))\<close> is the identity on the
  model.  \<open>JSON.parse\<close> of a body string is the runtime's and is a parameter; it gives
  \<open>None\<close> where it throws.
\<close>

definition normalize_body :: "(string \<Rightarrow> json option) \<Rightarrow> json option \<Rightarrow> json option" where
  "normalize_body JSON_parse b =
     (case b of
        Some (JStr s) \<Rightarrow>
          if startsWith s ''{'' \<or> startsWith s ''[''
          then (case JSON_parse s of Some v \<Rightarrow> Some v | None \<Rightarrow> Some (JStr s))
          else Some (JStr s)
      | _ \<Rightarrow> b)"

definition normalizeForComparison_response ::
  "(string \<Rightarrow> json option) \<Rightarrow> (string \<Rightarrow> string) \<Rightarrow> verifier_options \<Rightarrow> response
     \<Rightarrow> response" where
  "normalizeForComparison_response JSON_parse toLowerCase opts resp =
     \<lparr> statusCode = statusCode resp,
       r_headers = map_option (normalize_headers toLowerCase opts) (r_headers resp),
       r_body = normalize_body JSON_parse (r_body resp) \<rparr>"

subsection \<open>\<open>compareHeaders\<close>\<close>

text \<open>
  \<open>a !== b\<close> on two values of different clones: primitives compare by value, two
  objects or arrays are never the same reference.
\<close>

fun strict_eq :: "json \<Rightarrow> json \<Rightarrow> bool" where
  "strict_eq (JArr xs) b = False"
| "strict_eq (JObj kvs) b = False"
| "strict_eq a b = (a = b)"

record header_diffs =
  hd_added :: "string list"
  hd_removed :: "string list"
  hd_modified :: "(string \<times> json \<times> json) list"
  hd_total :: nat

definition compareHeaders ::
  "(string \<times> json) list option \<Rightarrow> (string \<times> json) list option \<Rightarrow> header_diffs" where
  "compareHeaders originalHeaders replayedHeaders =
     (let oh = (case originalHeaders of Some h \<Rightarrow> h | None \<Rightarrow> []);
          rh = (case replayedHeaders of Some h \<Rightarrow> h | None \<Rightarrow> []);
          originalKeys = map fst oh;
          replayedKeys = map fst rh;
          added = filter (\<lambda>key. key \<notin> set originalKeys) replayedKeys;
          removed = filter (\<lambda>key. key \<notin> set replayedKeys) originalKeys;
          modified =
            map (\<lambda>key. (key, the (map_of oh key), the (map_of rh key)))
              (filter (\<lambda>key. key \<in> set replayedKeys
                          \<and> \<not> strict_eq (the (map_of oh key)) (the (map_of rh key)))
                 originalKeys)
      in \<lparr> hd_added = added, hd_removed = removed, hd_modified = modified,
           hd_total = length added + length removed + length modified \<rparr>)"

subsection \<open>\<open>compareResponseBodies\<close>\<close>

definition shouldIgnoreField :: "verifier_options \<Rightarrow> string \<Rightarrow> bool" where
  "shouldIgnoreField opts fieldPath =
     list_ex (\<lambda>pattern.
                case pattern of
                  PatString s \<Rightarrow> fieldPath = s \<or> startsWith fieldPath (s @ ''.'')
                | PatRegExp test \<Rightarrow> test fieldPath
                | PatOther \<Rightarrow> False)
       (ignoreFields opts)"

text \<open>
  The result of a body comparison.  An entry of \<open>incompatible\<close> is kept as its path and
  its reason; \<open>tolerated\<close> is the counter of the tolerance-aware comparison, absent (read
  as 0) in the plain one.
\<close>

record body_diffs =
  bd_added :: "(string \<times> json) list"
  bd_removed :: "(string \<times> json) list"
  bd_modified :: "(string \<times> json \<times> json) list"
  bd_incompatible :: "(string \<times> string) list"
  bd_tolerated :: nat
  bd_total :: nat

definition no_diffs :: body_diffs where
  "no_diffs =
     \<lparr> bd_added = [], bd_removed = [], bd_modified = [], bd_incompatible = [],
       bd_tolerated = 0, bd_total = 0 \<rparr>"

definition reason_type_changed :: "json \<Rightarrow> json \<Rightarrow> string" where
  "reason_type_changed lhs rhs = ''Type changed from '' @ typeof lhs @ '' to '' @ typeof rhs"

definition reason_type_mismatch :: "json option \<Rightarrow> json option \<Rightarrow> string" where
  "reason_type_mismatch originalBody replayedBody =
     ''Type mismatch: '' @ typeof_opt originalBody @ '' vs '' @ typeof_opt replayedBody"

definition reason_comparison_error :: "string \<Rightarrow> string" where
  "reason_comparison_error message = ''Comparison error: '' @ message"

text \<open>
  The message of the \<open>TypeError\<close> raised by reading a property of \<open>undefined\<close>, as
  \<open>diff.path.join\<close> does on a difference record without path.
\<close>

definition cannot_read_undefined :: "string \<Rightarrow> string" where
  "cannot_read_undefined property =
     ''Cannot read properties of undefined (reading '' @ [CHR 0x27] @ property @ [CHR 0x27] @ '')''"

text \<open>The \<open>switch (diff.kind)\<close> of the \<open>forEach\<close> body; \<open>pth\<close> is the joined path.\<close>

fun classify :: "string \<Rightarrow> diff \<Rightarrow> body_diffs \<Rightarrow> body_diffs" where
  "classify pth (DiffNew p rhs) acc = acc\<lparr> bd_added := bd_added acc @ [(pth, rhs)] \<rparr>"
| "classify pth (DiffDeleted p lhs) acc =
     acc\<lparr> bd_removed := bd_removed acc @ [(pth, lhs)],
          bd_incompatible := bd_incompatible acc @ [(pth, ''Field was removed'')] \<rparr>"
| "classify pth (DiffEdit p lhs rhs) acc =
     acc\<lparr> bd_modified := bd_modified acc @ [(pth, lhs, rhs)],
          bd_incompatible := bd_incompatible acc
            @ (if typeof lhs \<noteq> typeof rhs then [(pth, reason_type_changed lhs rhs)] else []) \<rparr>"
| "classify pth (DiffArray p i (ItemDeleted lhs)) acc =
     (let arrayPath = pth @ ''['' @ string_of_nat i @ '']''
      in acc\<lparr> bd_removed := bd_removed acc @ [(arrayPath, lhs)],
              bd_incompatible := bd_incompatible acc @ [(arrayPath, ''Array element was removed'')] \<rparr>)"
| "classify pth (DiffArray p i (ItemNew rhs)) acc =
     (let arrayPath = pth @ ''['' @ string_of_nat i @ '']''
      in acc\<lparr> bd_added := bd_added acc @ [(arrayPath, rhs)] \<rparr>)"
| "classify pth (DiffArray p i (ItemEdit lhs rhs)) acc =
     (let arrayPath = pth @ ''['' @ string_of_nat i @ '']''
      in acc\<lparr> bd_modified := bd_modified acc @ [(arrayPath, lhs, rhs)],
              bd_incompatible := bd_incompatible acc
                @ (if typeof lhs \<noteq> typeof rhs
                   then [(arrayPath, reason_type_changed lhs rhs)] else []) \<rparr>)"

text \<open>
  One round of the \<open>forEach\<close>: \<open>Inl\<close> is the exception that leaves the loop for the
  \<open>catch\<close> block.
\<close>

definition process_difference ::
  "verifier_options \<Rightarrow> diff \<Rightarrow> body_diffs \<Rightarrow> string + body_diffs" where
  "process_difference opts d acc =
     (case diff_path d of
        None \<Rightarrow> Inl (cannot_read_undefined ''join'')
      | Some p \<Rightarrow>
          let pth = path_join p
          in if shouldIgnoreField opts pth then Inr acc else Inr (classify pth d acc))"

fun process_differences ::
  "(diff \<Rightarrow> body_diffs \<Rightarrow> string + body_diffs) \<Rightarrow> diff list \<Rightarrow> body_diffs
     \<Rightarrow> string + body_diffs" where
  "process_differences step [] acc = Inr acc"
| "process_differences step (d # ds) acc =
     (case step d acc of
        Inl e \<Rightarrow> Inl e
      | Inr acc' \<Rightarrow> process_differences step ds acc')"

definition with_total :: "body_diffs \<Rightarrow> body_diffs" where
  "with_total acc =
     acc\<lparr> bd_total := length (bd_added acc) + length (bd_removed acc) + length (bd_modified acc) \<rparr>"

definition comparison_error :: "string \<Rightarrow> body_diffs" where
  "comparison_error message =
     no_diffs\<lparr> bd_incompatible := [(''/'', reason_comparison_error message)], bd_total := 1 \<rparr>"

definition compareResponseBodies ::
  "verifier_options \<Rightarrow> json option \<Rightarrow> json option \<Rightarrow> body_diffs" where
  "compareResponseBodies opts originalBody replayedBody =
     (case (originalBody, replayedBody) of
        (None, None) \<Rightarrow> no_diffs
      | (Some a, Some b) \<Rightarrow>
          if typeof a \<noteq> typeof b
          then no_diffs\<lparr> bd_incompatible :=
                           [(''/'', reason_type_mismatch originalBody replayedBody)],
                         bd_total := 1 \<rparr>
          else if typeof a \<noteq> ''object'' \<or> a = JNull \<or> b = JNull
          then (if a = b then no_diffs
                else no_diffs\<lparr> bd_modified := [(''/'', a, b)], bd_total := 1 \<rparr>)
          else (case process_differences (process_difference opts) (deepDiff_diff a b) no_diffs of
                  Inr acc \<Rightarrow> with_total acc
                | Inl message \<Rightarrow> comparison_error message)
      | _ \<Rightarrow>
          no_diffs\<lparr> bd_incompatible :=
                      [(''/'', reason_type_mismatch originalBody replayedBody)],
                    bd_total := 1 \<rparr>)"

subsection \<open>\<open>compareResponses\<close>\<close>

record comparison =
  statusMatch :: bool
  headerDiffs :: header_diffs
  bodyDiffs :: body_diffs
  isCompatible :: bool

definition compareResponses ::
  "(string \<Rightarrow> json option) \<Rightarrow> (string \<Rightarrow> string) \<Rightarrow> verifier_options \<Rightarrow> response \<Rightarrow> response
     \<Rightarrow> comparison" where
  "compareResponses JSON_parse toLowerCase opts original replayed =
     (let normalizedOriginal = normalizeForComparison_response JSON_parse toLowerCase opts original;
          normalizedReplayed = normalizeForComparison_response JSON_parse toLowerCase opts replayed;
          sm = (statusCode normalizedOriginal = statusCode normalizedReplayed);
          hd = compareHeaders (r_headers normalizedOriginal) (r_headers normalizedReplayed);
          bd = compareResponseBodies opts (r_body normalizedOriginal) (r_body normalizedReplayed)
      in \<lparr> statusMatch = sm, headerDiffs = hd, bodyDiffs = bd,
           isCompatible = (sm \<and> hd_added hd = [] \<and> hd_removed hd = []
                           \<and> bd_incompatible bd = [] \<and> bd_removed bd = []) \<rparr>)"


subsection \<open>Type changes\<close>

text \<open>
  The entries of \<open>modified\<close> for which the code's test \<open>typeof lhs !== typeof rhs\<close>
  holds: these are the edits the \<open>switch\<close> also lists in \<open>incompatible\<close>.
\<close>

definition typeof_changed :: "body_diffs \<Rightarrow> (string \<times> json \<times> json) list" where
  "typeof_changed bd =
     filter (\<lambda>(pth, original, replayed). typeof original \<noteq> typeof replayed) (bd_modified bd)"

text \<open>
  Following the specification, not the code: \<open>TypeChanged\<close> is the subset of
  \<open>modified\<close> where the runtime type categories differ (object vs. sequence vs. string
  vs. number vs. boolean vs. null).  The code keeps no such list.
\<close>

fun type_category :: "json \<Rightarrow> string" where
  "type_category JNull = ''null''"
| "type_category (JBool b) = ''boolean''"
| "type_category (JNum n) = ''number''"
| "type_category (JStr s) = ''string''"
| "type_category (JArr xs) = ''sequence''"
| "type_category (JObj kvs) = ''object''"

definition typeChanged :: "body_diffs \<Rightarrow> (string \<times> json \<times> json) list" where
  "typeChanged bd =
     filter (\<lambda>(pth, original, replayed). type_category original \<noteq> type_category replayed)
       (bd_modified bd)"

section \<open>The tolerance rules (replay\_strict\_mode.js)\<close>

text \<open>
  The tolerance-aware verifier replaces \<open>compareResponseBodies\<close> and defines
  \<open>normalizeForComparison(path, data)\<close>, with two arguments; every other method is the
  plain verifier's.  What belongs to the JavaScript runtime, and not to the repository,
  is collected in a record and is a parameter of every function that needs it:
  \<open>new Date(s).getTime()\<close> (\<open>None\<close> for an invalid date), \<open>Number(s)\<close> (\<open>None\<close> for
  \<open>NaN\<close>), \<open>Date.now()\<close>, \<open>String.prototype.localeCompare\<close>, \<open>String(v)\<close>,
  \<open>JSON.stringify\<close> and \<open>String.prototype.toLowerCase\<close>.
\<close>

record runtime =
  rt_Date_parse :: "string \<Rightarrow> real option"
  rt_Number :: "string \<Rightarrow> real option"
  rt_Date_now :: real
  rt_localeCompare :: "string \<Rightarrow> string \<Rightarrow> int"
  rt_String :: "json \<Rightarrow> string"
  rt_JSON_stringify :: "json \<Rightarrow> string"
  rt_toLowerCase :: "string \<Rightarrow> string"

text \<open>
  \<open>this.options.tolerances\<close>.  The constructor's object literal names \<open>tolerances\<close>
  twice and the second entry, a copy of the caller's own object, is the one in force: no
  default is merged into it.  The three scalar keys are set by every configuration the
  repository builds; each of the three lists may be missing (\<open>None\<close>), and then reading
  \<open>.some\<close> or \<open>.length\<close> of it raises a \<open>TypeError\<close>.
\<close>

record tolerance_config =
  timestampDriftSeconds :: real
  ignoreUUIDs :: bool
  sortArrays :: bool
  arrayFields :: "string list option"
  timestampFields :: "string list option"
  uuidFields :: "string list option"

text \<open>The values the constructor lists as defaults, passed by the caller.\<close>

definition default_tolerances :: tolerance_config where
  "default_tolerances =
     \<lparr> timestampDriftSeconds = 5, ignoreUUIDs = True, sortArrays = True, arrayFields = Some [],
       timestampFields = Some [''timestamp'', ''date'', ''time'', ''created'', ''updated'', ''at'',
                               ''createdAt'', ''updatedAt'', ''created_at'', ''updated_at''],
       uuidFields = Some [''id'', ''uuid'', ''guid'', ''trackingId''] \<rparr>"



subsection \<open>UUID detection\<close>

definition is_hex :: "char \<Rightarrow> bool" where
  "is_hex c = (c \<in> set ''0123456789abcdefABCDEF'')"

definition is_digit :: "char \<Rightarrow> bool" where
  "is_digit c = (c \<in> set ''0123456789'')"

text \<open>A prefix of exactly \<open>n\<close> characters satisfying \<open>P\<close>; the rest of the string.\<close>

fun take_n :: "(char \<Rightarrow> bool) \<Rightarrow> nat \<Rightarrow> string \<Rightarrow> string option" where
  "take_n P 0 s = Some s"
| "take_n P (Suc n) [] = None"
| "take_n P (Suc n) (c # cs) = (if P c then take_n P n cs else None)"

fun skip_opt :: "char \<Rightarrow> string \<Rightarrow> string" where
  "skip_opt c [] = []"
| "skip_opt c (d # ds) = (if d = c then ds else d # ds)"

fun expect :: "char \<Rightarrow> string \<Rightarrow> string option" where
  "expect c [] = None"
| "expect c (d # ds) = (if d = c then Some ds else None)"

text \<open>A sequence of matchers, each consuming a prefix of what the previous one left.\<close>

fun match_seq :: "(string \<Rightarrow> string option) list \<Rightarrow> string \<Rightarrow> string option" where
  "match_seq [] s = Some s"
| "match_seq (m # ms) s = (case m s of None \<Rightarrow> None | Some s' \<Rightarrow> match_seq ms s')"

definition opt_char :: "char \<Rightarrow> string \<Rightarrow> string option" where
  "opt_char c s = Some (skip_opt c s)"

text \<open>
  \<open>/^[0-9a-f]{8}-?[0-9a-f]{4}-?[0-9a-f]{4}-?[0-9a-f]{4}-?[0-9a-f]{12}$/i\<close>
\<close>

definition uuid_pattern :: "string \<Rightarrow> bool" where
  "uuid_pattern s =
     (match_seq [take_n is_hex 8, opt_char CHR ''-'', take_n is_hex 4, opt_char CHR ''-'',
                 take_n is_hex 4, opt_char CHR ''-'', take_n is_hex 4, opt_char CHR ''-'',
                 take_n is_hex 12] s = Some [])"

text \<open>
  \<open>isUUID.anyNonNil\<close> of the \<open>is-uuid\<close> package:
  \<open>/^[0-9a-f]{8}-[0-9a-f]{4}-[1-5][0-9a-f]{3}-[89ab][0-9a-f]{3}-[0-9a-f]{12}$/i\<close>
\<close>

definition isUUID_anyNonNil :: "string \<Rightarrow> bool" where
  "isUUID_anyNonNil s =
     (match_seq [take_n is_hex 8, expect CHR ''-'', take_n is_hex 4, expect CHR ''-'',
                 take_n (\<lambda>c. c \<in> set ''12345'') 1, take_n is_hex 3, expect CHR ''-'',
                 take_n (\<lambda>c. c \<in> set ''89abAB'') 1, take_n is_hex 3, expect CHR ''-'',
                 take_n is_hex 12] s = Some [])"

text \<open>
  In the functions below \<open>Inl\<close> is the message of the exception a function raises, here
  the \<open>TypeError\<close> of \<open>uuidFields.some\<close> on a missing list.
\<close>

definition isLikelyUUID :: "runtime \<Rightarrow> tolerance_config \<Rightarrow> string \<Rightarrow> json \<Rightarrow> string + bool" where
  "isLikelyUUID rt tol key v =
     (case uuidFields tol of
        None \<Rightarrow> Inl (cannot_read_undefined ''some'')
      | Some fs \<Rightarrow>
          (let isUuidField =
                 list_ex (\<lambda>field. str_includes (rt_toLowerCase rt key) (rt_toLowerCase rt field)) fs
           in case v of
                JStr s \<Rightarrow> Inr (isUuidField \<and> (isUUID_anyNonNil s \<or> uuid_pattern s))
              | _ \<Rightarrow> Inr False))"

subsection \<open>Timestamp detection and comparison\<close>

text \<open>The last segment of \<open>path.split('.')\<close>.\<close>

definition last_segment :: "string \<Rightarrow> string" where
  "last_segment pth = rev (takeWhile (\<lambda>c. c \<noteq> CHR ''.'') (rev pth))"

text \<open>
  \<open>/^\d{4}-\d{2}-\d{2}T\d{2}:\d{2}:\d{2}(.\d+)?Z?$/\<close>.  After the seconds the rest is
  empty, \<open>Z\<close>, or one character other than a line terminator followed by digits and an
  optional \<open>Z\<close>.
\<close>

definition iso_tail :: "string \<Rightarrow> bool" where
  "iso_tail s =
     (s = [] \<or> s = ''Z'' \<or>
      (case s of
         [] \<Rightarrow> False
       | c # ds \<Rightarrow>
           c \<noteq> CHR 0x0A \<and> c \<noteq> CHR 0x0D \<and>
           (let digits = takeWhile is_digit ds; rest = dropWhile is_digit ds
            in digits \<noteq> [] \<and> (rest = [] \<or> rest = ''Z''))))"

definition isoDatePattern :: "string \<Rightarrow> bool" where
  "isoDatePattern s =
     (case match_seq [take_n is_digit 4, expect CHR ''-'', take_n is_digit 2, expect CHR ''-'',
                      take_n is_digit 2, expect CHR ''T'', take_n is_digit 2, expect CHR '':'',
                      take_n is_digit 2, expect CHR '':'', take_n is_digit 2] s of
        None \<Rightarrow> False
      | Some rest \<Rightarrow> iso_tail rest)"

definition isLikelyTimestamp ::
  "runtime \<Rightarrow> tolerance_config \<Rightarrow> string \<Rightarrow> json \<Rightarrow> string + bool" where
  "isLikelyTimestamp rt tol pth v =
     (let fieldName = last_segment pth
      in case timestampFields tol of
           None \<Rightarrow> Inl (cannot_read_undefined ''some'')
         | Some fs \<Rightarrow>
             (let isTimestampField =
                    list_ex (\<lambda>field. str_includes (rt_toLowerCase rt fieldName)
                                       (rt_toLowerCase rt field)) fs
              in case v of
                   JStr s \<Rightarrow> Inr (isTimestampField \<or> isoDatePattern s)
                 | JNum n \<Rightarrow>
                     Inr (isTimestampField \<or> (n > 946684800000 \<and> n \<le> rt_Date_now rt))
                 | _ \<Rightarrow> Inr False))"

text \<open>\<open>toTimestamp\<close>: milliseconds, or \<open>None\<close> for the \<open>null\<close> of an invalid value.\<close>

definition number_toTimestamp :: "real \<Rightarrow> real" where
  "number_toTimestamp n = (if n < 4102444800 then n * 1000 else n)"

definition toTimestamp :: "runtime \<Rightarrow> json \<Rightarrow> real option" where
  "toTimestamp rt v =
     (case v of
        JNum n \<Rightarrow> Some (number_toTimestamp n)
      | JStr s \<Rightarrow>
          (case rt_Date_parse rt s of
             Some t \<Rightarrow> Some t
           | None \<Rightarrow>
               (case rt_Number rt s of
                  Some n \<Rightarrow> Some (number_toTimestamp n)
                | None \<Rightarrow> None))
      | _ \<Rightarrow> None)"

text \<open>
  \<open>areTimestampsEquivalent\<close>: the guard \<open>if (!time1 || !time2) return false\<close> rejects
  \<open>null\<close> and also the number 0.
\<close>

definition areTimestampsEquivalent :: "runtime \<Rightarrow> tolerance_config \<Rightarrow> json \<Rightarrow> json \<Rightarrow> bool" where
  "areTimestampsEquivalent rt tol timestamp1 timestamp2 =
     (case (toTimestamp rt timestamp1, toTimestamp rt timestamp2) of
        (Some time1, Some time2) \<Rightarrow>
          if time1 = 0 \<or> time2 = 0 then False
          else (let diffSeconds = \<bar>time1 - time2\<bar> / 1000
                in diffSeconds \<le> timestampDriftSeconds tol)
      | _ \<Rightarrow> False)"

text \<open>
  \<open>areValuesEquivalent\<close>: \<open>a && b\<close> evaluates \<open>b\<close> only when \<open>a\<close> holds, so the
  second detection, and the UUID test, raise only when they are reached.
\<close>

definition areValuesEquivalent ::
  "runtime \<Rightarrow> tolerance_config \<Rightarrow> string \<Rightarrow> json \<Rightarrow> json \<Rightarrow> string + bool" where
  "areValuesEquivalent rt tol pth original replayed =
     (if strict_eq original replayed then Inr True
      else
        (case isLikelyTimestamp rt tol pth original of
           Inl e \<Rightarrow> Inl e
         | Inr t1 \<Rightarrow>
             (case (if t1 then isLikelyTimestamp rt tol pth replayed else Inr False) of
                Inl e \<Rightarrow> Inl e
              | Inr t2 \<Rightarrow>
                  if t2 then Inr (areTimestampsEquivalent rt tol original replayed)
                  else if ignoreUUIDs tol \<and> typeof original = ''string''
                          \<and> typeof replayed = ''string''
                  then (case isLikelyUUID rt tol [] original of
                          Inl e \<Rightarrow> Inl e
                        | Inr u1 \<Rightarrow>
                            (case (if u1 then isLikelyUUID rt tol [] replayed else Inr False) of
                               Inl e \<Rightarrow> Inl e
                             | Inr u2 \<Rightarrow> Inr u2))
                  else Inr False)))"


subsection \<open>Array sorting\<close>







subsection \<open>\<open>normalizeForComparison(path, data)\<close>\<close>



subsection \<open>The tolerance-aware \<open>compareResponseBodies\<close>\<close>



subsection \<open>\<open>compareResponses\<close> in the tolerance-aware verifier\<close>



section \<open>Replaying a session\<close>

record interaction =
  ia_request :: captured_request
  ia_response :: response

text \<open>
  An entry of \<open>interactionResults\<close>: the request with the two responses and their
  comparison, or the request with the message of the error caught for it.
\<close>

datatype interaction_result =
    Compared captured_request response response comparison
  | Errored captured_request string

record summary =
  s_total :: nat
  s_compatible :: nat
  s_incompatible :: nat
  s_errors :: nat

record results =
  interactionResults :: "interaction_result list"
  res_summary :: summary
  compatibilityScore :: real

text \<open>
  The body of the \<open>for\<close> loop of \<open>replayAgainstContract\<close>.  \<open>replayRequest\<close> is the
  method in force (a live HTTP call, or a rendered template) and \<open>compare\<close> is
  \<open>this.compareResponses\<close>; both are called inside the \<open>try\<close>, and \<open>Inl\<close> is the
  message of an exception one of them raises, caught by the loop's \<open>catch\<close>.
\<close>

definition replay_interaction ::
  "(captured_request \<Rightarrow> string + response) \<Rightarrow> (response \<Rightarrow> response \<Rightarrow> string + comparison)
     \<Rightarrow> interaction \<Rightarrow> interaction_result" where
  "replay_interaction replayRequest compare ia =
     (case replayRequest (ia_request ia) of
        Inl message \<Rightarrow> Errored (ia_request ia) message
      | Inr replayedResponse \<Rightarrow>
          (case compare (ia_response ia) replayedResponse of
             Inl message \<Rightarrow> Errored (ia_request ia) message
           | Inr comparisonResult \<Rightarrow>
               Compared (ia_request ia) (ia_response ia) replayedResponse comparisonResult))"

text \<open>A method that raises no exception, as an argument where one that may is expected.\<close>

definition returning :: "('a \<Rightarrow> 'b \<Rightarrow> 'c) \<Rightarrow> 'a \<Rightarrow> 'b \<Rightarrow> string + 'c" where
  "returning f a b = Inr (f a b)"

fun count_result :: "interaction_result \<Rightarrow> summary \<Rightarrow> summary" where
  "count_result (Compared rq original replayed c) s =
     (if isCompatible c
      then s\<lparr> s_total := s_total s + 1, s_compatible := s_compatible s + 1 \<rparr>
      else s\<lparr> s_total := s_total s + 1, s_incompatible := s_incompatible s + 1 \<rparr>)"
| "count_result (Errored rq message) s =
     s\<lparr> s_total := s_total s + 1, s_errors := s_errors s + 1 \<rparr>"

fun replay_loop ::
  "(captured_request \<Rightarrow> string + response) \<Rightarrow> (response \<Rightarrow> response \<Rightarrow> string + comparison)
     \<Rightarrow> interaction list \<Rightarrow> interaction_result list \<times> summary
     \<Rightarrow> interaction_result list \<times> summary" where
  "replay_loop replayRequest compare [] state = state"
| "replay_loop replayRequest compare (ia # ias) (rs, s) =
     (let r = replay_interaction replayRequest compare ia
      in replay_loop replayRequest compare ias (rs @ [r], count_result r s))"

definition session_not_found :: "string \<Rightarrow> string" where
  "session_not_found sessionId =
     ''Session '' @ sessionId @ '' not found. Make sure to load it first.''"

definition replayAgainstContract ::
  "(string \<Rightarrow> interaction list option) \<Rightarrow> (captured_request \<Rightarrow> string + response)
     \<Rightarrow> (response \<Rightarrow> response \<Rightarrow> string + comparison) \<Rightarrow> string \<Rightarrow> string + results" where
  "replayAgainstContract originalSessions replayRequest compare sessionId =
     (case originalSessions sessionId of
        None \<Rightarrow> Inl (session_not_found sessionId)
      | Some interactions \<Rightarrow>
          (let (rs, s) = replay_loop replayRequest compare interactions
                           ([], \<lparr> s_total = 0, s_compatible = 0, s_incompatible = 0, s_errors = 0 \<rparr>)
           in Inr \<lparr> interactionResults = rs, res_summary = s,
                    compatibilityScore =
                      (if s_total s > 0
                       then (real (s_compatible s) / real (s_total s)) * 100 else 0) \<rparr>))"

subsection \<open>\<open>updateVerificationSummary\<close>\<close>

text \<open>
  Per interaction: the number of differences counted, the number tolerated, and their
  difference (which JavaScript computes as a number that may be negative).
\<close>

fun ir_comparison :: "interaction_result \<Rightarrow> comparison option" where
  "ir_comparison (Compared rq original replayed c) = Some c"
| "ir_comparison (Errored rq message) = None"







section \<open>Response templates (\<open>ResponseTemplate\<close>)\<close>

text \<open>
  \<open>compile\<close> of the Handlebars package is a dependency and a parameter: \<open>hb s ctx\<close> is
  the compiled template of the source \<open>s\<close> applied to the context \<open>ctx\<close>, \<open>Inl\<close> the
  exception it raises.

  \<open>compileObjectTemplate\<close> walks \<open>Object.entries(obj)\<close>: a string containing
  \<open>{{\<close> is compiled, a value with \<open>typeof value === 'object'\<close> other than \<open>null\<close>
  (an object, and an array alike) is compiled recursively, anything else is kept.
\<close>

datatype compiled =
    CTemplate string
  | CObject "(string \<times> compiled) list"
  | CStatic json

fun compileObjectTemplate :: "json \<Rightarrow> (string \<times> compiled) list"
  and compile_fields :: "(string \<times> json) list \<Rightarrow> (string \<times> compiled) list"
  and compile_elems :: "nat \<Rightarrow> json list \<Rightarrow> (string \<times> compiled) list"
  and compile_value :: "json \<Rightarrow> compiled"
where
  "compileObjectTemplate (JObj kvs) = compile_fields kvs"
| "compileObjectTemplate (JArr xs) = compile_elems 0 xs"
| "compileObjectTemplate JNull = []"
| "compileObjectTemplate (JBool b) = []"
| "compileObjectTemplate (JNum n) = []"
| "compileObjectTemplate (JStr s) = []"
| "compile_fields [] = []"
| "compile_fields ((key, v) # kvs) = (key, compile_value v) # compile_fields kvs"
| "compile_elems i [] = []"
| "compile_elems i (x # xs) = (string_of_nat i, compile_value x) # compile_elems (Suc i) xs"
| "compile_value (JStr s) = (if str_includes s ''{{'' then CTemplate s else CStatic (JStr s))"
| "compile_value (JObj kvs) = CObject (compileObjectTemplate (JObj kvs))"
| "compile_value (JArr xs) = CObject (compileObjectTemplate (JArr xs))"
| "compile_value JNull = CStatic JNull"
| "compile_value (JBool b) = CStatic (JBool b)"
| "compile_value (JNum n) = CStatic (JNum n)"

text \<open>
  The function \<open>compileObjectTemplate\<close> returns: it fills a fresh object \<open>{}\<close> key by
  key, so its result is always a plain object.
\<close>

fun render_entries ::
    "(string \<Rightarrow> json \<Rightarrow> string + string) \<Rightarrow> (string \<times> compiled) list \<Rightarrow> json
       \<Rightarrow> string + (string \<times> json) list"
  and render_value ::
    "(string \<Rightarrow> json \<Rightarrow> string + string) \<Rightarrow> compiled \<Rightarrow> json \<Rightarrow> string + json"
where
  "render_entries hb [] ctx = Inr []"
| "render_entries hb ((key, c) # es) ctx =
     (case render_value hb c ctx of
        Inl e \<Rightarrow> Inl e
      | Inr v \<Rightarrow>
          (case render_entries hb es ctx of
             Inl e \<Rightarrow> Inl e
           | Inr kvs \<Rightarrow> Inr ((key, v) # kvs)))"
| "render_value hb (CTemplate s) ctx =
     (case hb s ctx of Inl e \<Rightarrow> Inl e | Inr out \<Rightarrow> Inr (JStr out))"
| "render_value hb (CObject es) ctx =
     (case render_entries hb es ctx of Inl e \<Rightarrow> Inl e | Inr kvs \<Rightarrow> Inr (JObj kvs))"
| "render_value hb (CStatic v) ctx = Inr v"

text \<open>
  \<open>compile()\<close> followed by \<open>render(context)\<close>.  A string is handed to Handlebars; any
  value of type \<open>object\<close> goes to \<open>compileObjectTemplate\<close>, where \<open>null\<close> makes
  \<open>Object.entries\<close> raise; every other value is refused.
\<close>

definition template_type_error :: string where
  "template_type_error = ''Template must be a string or object''"

definition entries_of_null_error :: string where
  "entries_of_null_error = ''Cannot convert undefined or null to object''"

definition render ::
  "(string \<Rightarrow> json \<Rightarrow> string + string) \<Rightarrow> json \<Rightarrow> json \<Rightarrow> string + json" where
  "render hb template ctx =
     (case template of
        JStr s \<Rightarrow> (case hb s ctx of Inl e \<Rightarrow> Inl e | Inr out \<Rightarrow> Inr (JStr out))
      | JObj kvs \<Rightarrow> render_value hb (CObject (compileObjectTemplate template)) ctx
      | JArr xs \<Rightarrow> render_value hb (CObject (compileObjectTemplate template)) ctx
      | JNull \<Rightarrow> Inl entries_of_null_error
      | _ \<Rightarrow> Inl template_type_error)"

text \<open>A template value without placeholder: no string in it contains \<open>{{\<close>.\<close>

fun has_placeholder :: "json \<Rightarrow> bool" where
  "has_placeholder (JStr s) = str_includes s ''{{''"
| "has_placeholder (JArr xs) = list_ex has_placeholder xs"
| "has_placeholder (JObj kvs) = list_ex (\<lambda>kv. has_placeholder (snd kv)) kvs"
| "has_placeholder v = False"

fun has_array :: "json \<Rightarrow> bool" where
  "has_array (JArr xs) = True"
| "has_array (JObj kvs) = list_ex (\<lambda>kv. has_array (snd kv)) kvs"
| "has_array v = False"

subsection \<open>Replaying with a template\<close>

text \<open>
  \<open>resolveResponse\<close> for a request whose route matched: the context is built, the
  template rendered, and the response assembled; an exception of \<open>render\<close> propagates.
\<close>

record route =
  route_template :: json
  route_statusCode :: int
  route_headers :: "(string \<times> json) list"

definition resolveResponse ::
  "(string \<Rightarrow> json \<Rightarrow> string + string) \<Rightarrow> (captured_request \<Rightarrow> json) \<Rightarrow> route
     \<Rightarrow> captured_request \<Rightarrow> string + response" where
  "resolveResponse hb buildContext matchingRoute request =
     (case render hb (route_template matchingRoute) (buildContext request) of
        Inl e \<Rightarrow> Inl e
      | Inr responseBody \<Rightarrow>
          Inr \<lparr> statusCode = route_statusCode matchingRoute,
                r_headers = Some (route_headers matchingRoute),
                r_body = Some responseBody \<rparr>)"

text \<open>
  \<open>replayRequest\<close> of \<open>EnhancedSnapshotVerifier\<close>.  The response is resolved from the
  templates first, whatever \<open>useDynamicResponses\<close> says, so an exception of the rendering
  leaves \<open>replayRequest\<close> in both cases; without a matching route, or with dynamic responses
  off, the request goes to \<open>super.replayRequest\<close>, the live call.
\<close>

definition replayRequest_templates ::
  "(string \<Rightarrow> json \<Rightarrow> string + string) \<Rightarrow> (captured_request \<Rightarrow> route option)
     \<Rightarrow> (captured_request \<Rightarrow> json) \<Rightarrow> bool \<Rightarrow> (captured_request \<Rightarrow> string + response)
     \<Rightarrow> captured_request \<Rightarrow> string + response" where
  "replayRequest_templates hb findMatchingTemplate buildContext useDynamicResponses
       super_replayRequest request =
     (case findMatchingTemplate request of
        None \<Rightarrow> super_replayRequest request
      | Some matchingRoute \<Rightarrow>
          (case resolveResponse hb buildContext matchingRoute request of
             Inl e \<Rightarrow> Inl e
           | Inr templateResponse \<Rightarrow>
               if useDynamicResponses then Inr templateResponse
               else super_replayRequest request))"

text \<open>The strings of a template that are handed to the engine: those containing \<open>{{\<close>.\<close>

fun placeholder_strings :: "json \<Rightarrow> string list" where
  "placeholder_strings (JStr s) = (if str_includes s ''{{'' then [s] else [])"
| "placeholder_strings (JArr xs) = concat (map placeholder_strings xs)"
| "placeholder_strings (JObj kvs) = concat (map (\<lambda>kv. placeholder_strings (snd kv)) kvs)"
| "placeholder_strings v = []"

text \<open>
  All the strings of a template that reach the engine: a template that is a string is
  compiled whole, whatever it contains.
\<close>

definition engine_strings :: "json \<Rightarrow> string list" where
  "engine_strings template =
     (case template of JStr s \<Rightarrow> [s] | _ \<Rightarrow> placeholder_strings template)"

section \<open>The template engine on simple templates\<close>

text \<open>
  \<open>ResponseTemplate\<close> compiles with \<open>compile(template)\<close> of the Handlebars package and
  passes no option, so the engine runs in its default mode, not in its \<open>strict\<close> mode.
  The package is a dependency, not part of the repository.  The functions below follow it
  on the simplest templates only: text, mustaches \<open>{{path}}\<close> whose path is made of
  plain identifiers, and calls \<open>{{name arg ...}}\<close> of a name that is neither a helper nor
  a field of the context.  On every other template the result is \<open>None\<close>: the template
  is outside of what is described here.

  In the default mode a path that leads nowhere evaluates to \<open>undefined\<close> (the hook
  \<open>helperMissing\<close> called with no argument returns it), and \<open>undefined\<close> is written as
  the empty string; \<open>helperMissing\<close> called with arguments throws
  \<open>Missing helper: "name"\<close>.
\<close>

datatype hb_token = Content string | Mustache string

fun add_content :: "char \<Rightarrow> hb_token list \<Rightarrow> hb_token list" where
  "add_content c (Content s # ts) = Content (c # s) # ts"
| "add_content c ts = Content [c] # ts"

text \<open>
  The lexer: text up to the next \<open>{{\<close>, then the inside of the mustache up to the next
  \<open>}}\<close>.  A backslash (which can escape a mustache) and a mustache that is not closed
  are left out.
\<close>

fun hb_tokens :: "string \<Rightarrow> hb_token list option"
  and hb_inner :: "string \<Rightarrow> string \<Rightarrow> hb_token list option"
where
  "hb_tokens [] = Some []"
| "hb_tokens [c] = (if c = CHR 0x5C then None else Some [Content [c]])"
| "hb_tokens (c # d # cs) =
     (if c = CHR 0x5C then None
      else if c = CHR ''{'' \<and> d = CHR ''{'' then hb_inner [] cs
      else map_option (add_content c) (hb_tokens (d # cs)))"
| "hb_inner acc [] = None"
| "hb_inner acc [c] = None"
| "hb_inner acc (c # d # cs) =
     (if c = CHR ''}'' \<and> d = CHR ''}''
      then map_option ((#) (Mustache (rev acc))) (hb_tokens cs)
      else hb_inner (c # acc) (d # cs))"

fun split_on :: "char \<Rightarrow> string \<Rightarrow> string list" where
  "split_on sep [] = [[]]"
| "split_on sep (c # cs) =
     (if c = sep then [] # split_on sep cs
      else (case split_on sep cs of
              w # ws \<Rightarrow> (c # w) # ws
            | [] \<Rightarrow> [[c]]))"

text \<open>
  The identifiers taken here: letters, digits and \<open>_\<close>, not starting with a digit, and
  none of the names that mean something else to the engine (its literals and keywords,
  its built-in helpers, the helpers \<open>ResponseTemplate\<close> registers, the properties every
  object inherits).
\<close>

definition hb_id_char :: "char \<Rightarrow> bool" where
  "hb_id_char c =
     (c \<in> set ''abcdefghijklmnopqrstuvwxyzABCDEFGHIJKLMNOPQRSTUVWXYZ0123456789_'')"

definition hb_reserved :: "string list" where
  "hb_reserved =
     [''true'', ''false'', ''null'', ''undefined'', ''this'', ''else'', ''as'',
      ''if'', ''unless'', ''each'', ''with'', ''lookup'', ''log'',
      ''helperMissing'', ''blockHelperMissing'',
      ''uuid'', ''now'', ''timestamp'', ''random'', ''concat'', ''if_eq'',
      ''constructor'', ''hasOwnProperty'', ''isPrototypeOf'', ''propertyIsEnumerable'',
      ''toLocaleString'', ''toString'', ''valueOf'', ''__proto__'',
      ''__defineGetter__'', ''__defineSetter__'', ''__lookupGetter__'', ''__lookupSetter__'']"

definition hb_identifier :: "string \<Rightarrow> bool" where
  "hb_identifier s =
     (s \<noteq> [] \<and> list_all hb_id_char s \<and> \<not> is_digit (hd s) \<and> \<not> List.member hb_reserved s)"

definition hb_path :: "string \<Rightarrow> string list option" where
  "hb_path w =
     (let segments = split_on CHR ''.'' w
      in if list_all hb_identifier segments then Some segments else None)"

text \<open>
  Following a path through objects.  \<open>Some None\<close> is \<open>undefined\<close> (or \<open>null\<close>): a
  field that is not there, at any depth; \<open>None\<close> is a path through a value that is not
  an object, left out.
\<close>

fun hb_lookup :: "json \<Rightarrow> string list \<Rightarrow> json option option" where
  "hb_lookup v [] = Some (Some v)"
| "hb_lookup (JObj kvs) (k # ks) =
     (case map_of kvs k of
        None \<Rightarrow> Some None
      | Some w \<Rightarrow> hb_lookup w ks)"
| "hb_lookup JNull (k # ks) = Some None"
| "hb_lookup v (k # ks) = None"

text \<open>\<open>escapeExpression\<close>: the characters that markup gives a meaning to are replaced.\<close>

definition escapeChar :: "char \<Rightarrow> string" where
  "escapeChar c =
     (case map_of [(CHR ''&'', ''&amp;''), (CHR ''<'', ''&lt;''), (CHR ''>'', ''&gt;''),
                   (CHR 0x22, ''&quot;''), (CHR 0x27, ''&#x27;''), (CHR 0x60, ''&#x60;''),
                   (CHR ''='', ''&#x3D;'')] c of
        Some e \<Rightarrow> e
      | None \<Rightarrow> [c])"

fun escapeExpression :: "json option \<Rightarrow> string option" where
  "escapeExpression None = Some []"
| "escapeExpression (Some JNull) = Some []"
| "escapeExpression (Some (JStr s)) = Some (concat (map escapeChar s))"
| "escapeExpression (Some (JBool b)) = Some (if b then ''true'' else ''false'')"
| "escapeExpression (Some v) = None"

definition missing_helper :: "string \<Rightarrow> string" where
  "missing_helper name = ''Missing helper: '' @ [CHR 0x22] @ name @ [CHR 0x22]"

text \<open>One mustache: \<open>Inr\<close> what it writes, \<open>Inl\<close> the exception it throws.\<close>

definition hb_mustache :: "json \<Rightarrow> string \<Rightarrow> (string + string) option" where
  "hb_mustache ctx inner =
     (case filter (\<lambda>w. w \<noteq> []) (split_on CHR '' '' inner) of
        [] \<Rightarrow> None
      | [w] \<Rightarrow>
          (case hb_path w of
             None \<Rightarrow> None
           | Some p \<Rightarrow>
               (case hb_lookup ctx p of
                  None \<Rightarrow> None
                | Some v \<Rightarrow> map_option Inr (escapeExpression v)))
      | w # arg # args \<Rightarrow>
          if hb_identifier w \<and> list_all (\<lambda>a. hb_path a \<noteq> None) (arg # args)
               \<and> hb_lookup ctx [w] = Some None
          then Some (Inl (missing_helper w))
          else None)"

fun hb_part :: "json \<Rightarrow> hb_token \<Rightarrow> (string + string) option" where
  "hb_part ctx (Content s) = Some (Inr s)"
| "hb_part ctx (Mustache inner) = hb_mustache ctx inner"

text \<open>The parts are written one after the other; the first exception ends the rendering.\<close>

fun hb_join :: "(string + string) list \<Rightarrow> string + string" where
  "hb_join [] = Inr []"
| "hb_join (Inl e # ps) = Inl e"
| "hb_join (Inr s # ps) = (case hb_join ps of Inl e \<Rightarrow> Inl e | Inr out \<Rightarrow> Inr (s @ out))"

definition handlebars_simple :: "string \<Rightarrow> json \<Rightarrow> (string + string) option" where
  "handlebars_simple s ctx =
     (case hb_tokens s of
        None \<Rightarrow> None
      | Some ts \<Rightarrow> map_option hb_join (those (map (hb_part ctx) ts)))"

section \<open>Example data\<close>

text \<open>
  An instance of the runtime for the examples.  Its date parser reads the UTC form
  \<open>YYYY-MM-DDTHH:mm:ss[.fff]Z\<close> of ISO 8601 and rejects everything else; the day number
  is computed with the usual civil-calendar formula.
\<close>

definition digit_val :: "char \<Rightarrow> nat" where
  "digit_val c =
     (case map_of [(CHR ''0'', 0), (CHR ''1'', 1), (CHR ''2'', 2), (CHR ''3'', 3), (CHR ''4'', 4),
                   (CHR ''5'', 5), (CHR ''6'', 6), (CHR ''7'', 7), (CHR ''8'', 8), (CHR ''9'', 9)] c of
        Some d \<Rightarrow> d
      | None \<Rightarrow> 0)"

definition digits_val :: "string \<Rightarrow> nat" where
  "digits_val s = foldl (\<lambda>n c. 10 * n + digit_val c) 0 s"

definition days_from_civil :: "int \<Rightarrow> int \<Rightarrow> int \<Rightarrow> int" where
  "days_from_civil y m d =
     (let y' = (if m \<le> 2 then y - 1 else y);
          era = y' div 400;
          yoe = y' - era * 400;
          doy = (153 * (if m > 2 then m - 3 else m + 9) + 2) div 5 + d - 1;
          doe = yoe * 365 + yoe div 4 - yoe div 100 + doy
      in era * 146097 + doe - 719468)"

definition iso_utc_millis :: "string \<Rightarrow> real option" where
  "iso_utc_millis s =
     (if length s \<noteq> 20 \<and> length s \<noteq> 24 then None
      else if \<not> (list_all is_digit (take 4 s) \<and> s ! 4 = CHR ''-''
                 \<and> list_all is_digit (take 2 (drop 5 s)) \<and> s ! 7 = CHR ''-''
                 \<and> list_all is_digit (take 2 (drop 8 s)) \<and> s ! 10 = CHR ''T''
                 \<and> list_all is_digit (take 2 (drop 11 s)) \<and> s ! 13 = CHR '':''
                 \<and> list_all is_digit (take 2 (drop 14 s)) \<and> s ! 16 = CHR '':''
                 \<and> list_all is_digit (take 2 (drop 17 s)) \<and> last s = CHR ''Z''
                 \<and> (if length s = 24 then s ! 19 = CHR ''.'' \<and> list_all is_digit (take 3 (drop 20 s))
                     else True))
      then None
      else
        (let days = days_from_civil (int (digits_val (take 4 s)))
                      (int (digits_val (take 2 (drop 5 s)))) (int (digits_val (take 2 (drop 8 s))));
             secs = ((days * 24 + int (digits_val (take 2 (drop 11 s)))) * 60
                      + int (digits_val (take 2 (drop 14 s)))) * 60
                      + int (digits_val (take 2 (drop 17 s)));
             ms = (if length s = 24 then int (digits_val (take 3 (drop 20 s))) else 0)
         in Some (real_of_int (secs * 1000 + ms))))"

text \<open>
  The case conversion of the examples: \<open>toLowerCase\<close> on ASCII letters, every other
  character kept.  The strings of the examples are ASCII, and on them the runtime's
  \<open>toLowerCase\<close> gives the same.
\<close>

definition ex_toLowerCase :: "string \<Rightarrow> string" where
  "ex_toLowerCase s =
     map (\<lambda>c. case map_of (zip ''ABCDEFGHIJKLMNOPQRSTUVWXYZ'' ''abcdefghijklmnopqrstuvwxyz'') c of
                Some l \<Rightarrow> l
              | None \<Rightarrow> c) s"

definition ex_runtime :: runtime where
  "ex_runtime =
     \<lparr> rt_Date_parse = iso_utc_millis,
       rt_Number = (\<lambda>s. None),
       rt_Date_now = 1767225600000,
       rt_localeCompare = (\<lambda>a b. if a < b then -1 else if a = b then 0 else 1),
       rt_String = (\<lambda>v. case v of JStr s \<Rightarrow> s | _ \<Rightarrow> []),
       rt_JSON_stringify = (\<lambda>v. []),
       rt_toLowerCase = ex_toLowerCase \<rparr>"

definition ex_JSON_parse :: "string \<Rightarrow> json option" where
  "ex_JSON_parse s = None"

definition ex_request :: captured_request where
  "ex_request =
     \<lparr> c_method = ''GET'', c_path = ''/api/products'', c_query = JObj [],
       c_headers = Some [], c_body = None \<rparr>"

definition json_response :: "int \<Rightarrow> json \<Rightarrow> response" where
  "json_response status b =
     \<lparr> statusCode = status,
       r_headers = Some [(''Content-Type'', JStr ''application/json'')],
       r_body = Some b \<rparr>"

definition ex_products :: "(string \<times> json) list" where
  "ex_products = [(''products'', JArr [JObj [(''id'', JNum 1)]]), (''count'', JNum 1)]"

definition ex_recorded :: response where
  "ex_recorded = json_response 200 (JObj ex_products)"

definition ex_replayed_new_field :: response where
  "ex_replayed_new_field = json_response 200 (JObj (ex_products @ [(''page'', JNum 1)]))"

definition ex_replayed_new_header :: response where
  "ex_replayed_new_header =
     \<lparr> statusCode = 200,
       r_headers = Some [(''Content-Type'', JStr ''application/json''), (''X-Trace'', JStr ''t1'')],
       r_body = Some (JObj ex_products) \<rparr>"

definition ex_replayed_status_500 :: response where
  "ex_replayed_status_500 = json_response 500 (JObj ex_products)"



text \<open>A field changing from a sequence to an object.\<close>

definition ex_tags_array :: response where
  "ex_tags_array = json_response 200 (JObj [(''tags'', JArr [JStr ''a''])])"

definition ex_tags_object :: response where
  "ex_tags_object = json_response 200 (JObj [(''tags'', JObj [(''a'', JNum 1)])])"





definition ex_session :: "response \<Rightarrow> string \<Rightarrow> interaction list option" where
  "ex_session recorded sessionId =
     (if sessionId = ''s1'' then Some [\<lparr> ia_request = ex_request, ia_response = recorded \<rparr>]
      else None)"

definition ex_replay :: "response \<Rightarrow> captured_request \<Rightarrow> string + response" where
  "ex_replay replayed request = Inr replayed"

text \<open>A template with a nested array and no placeholder.\<close>

definition ex_template_tags :: json where
  "ex_template_tags = JObj [(''name'', JStr ''box''), (''tags'', JArr [JStr ''a'', JStr ''b''])]"

text \<open>
  Replaying with templates: an engine that is \<open>handlebars_simple\<close> on the templates
  that function describes, a context builder giving the request part of the default
  context, one route, and no live service.
\<close>

definition ex_Handlebars :: "string \<Rightarrow> json \<Rightarrow> string + string" where
  "ex_Handlebars s ctx =
     (case handlebars_simple s ctx of
        Some out \<Rightarrow> out
      | None \<Rightarrow> Inl ''template not described'')"

definition ex_buildContext :: "captured_request \<Rightarrow> json" where
  "ex_buildContext request =
     JObj [(''request'', JObj [(''method'', JStr (c_method request)),
                               (''path'', JStr (c_path request)),
                               (''query'', c_query request)])]"

definition ex_findMatchingTemplate :: "json \<Rightarrow> captured_request \<Rightarrow> route option" where
  "ex_findMatchingTemplate template request =
     (if c_path request = ''/api/products''
      then Some \<lparr> route_template = template, route_statusCode = 200,
                  route_headers = [(''Content-Type'', JStr ''application/json'')] \<rparr>
      else None)"

definition ex_live :: "captured_request \<Rightarrow> string + response" where
  "ex_live request = Inl ''connect ECONNREFUSED''"

text \<open>
  A template with a placeholder the context has no value for, and one calling a helper
  nobody registered.
\<close>

definition ex_template_greeting :: json where
  "ex_template_greeting = JObj [(''greeting'', JStr ''Hello {{userName}}'')]"

definition ex_template_shout :: json where
  "ex_template_shout = JObj [(''greeting'', JStr ''Hello {{shout userName}}'')]"

definition ex_greeting_recorded :: response where
  "ex_greeting_recorded = json_response 200 (JObj [(''greeting'', JStr ''Hello '')])"

text \<open>Two bodies that are arrays of different length, and a creation date in two types.\<close>

definition ex_list_short :: response where
  "ex_list_short = json_response 200 (JArr [JNum 1])"

definition ex_list_long :: response where
  "ex_list_long = json_response 200 (JArr [JNum 1, JNum 2])"



text \<open>A request with cookies, as the second recorder receives it.\<close>

definition ex_req_cookies :: incoming_request_003 where
  "ex_req_cookies =
     \<lparr> req_method = ''GET'', req_path = ''/api/cart'', req_query = None,
       req_headers = [(''accept'', JStr ''*/*'')], req_body = None,
       req_url = ''/api/cart?x=1'',
       req_cookies = Some [(''sessionId'', JStr ''s-1''), (''theme'', JStr ''dark'')] \<rparr>"

text \<open>A response whose body holds a token.\<close>

definition ex_res_token :: incoming_response where
  "ex_res_token =
     \<lparr> res_statusCode = 200, res_statusMessage = Some ''OK'',
       res_headers = Some [(''content-type'', JStr ''application/json'')],
       res_body = Some (JObj [(''token'', JStr ''t-1''), (''user'', JStr ''ann'')]) \<rparr>"

section \<open>The per-interaction verdict\<close>

lemma typeof_not_undefined: "typeof v \<noteq> ''undefined''"
  by (cases v) simp_all

lemma classify_verdict:
  assumes "(bd_incompatible acc = []) = (bd_removed acc = [] \<and> typeof_changed acc = [])"
  shows "(bd_incompatible (classify pth d acc) = [])
       = (bd_removed (classify pth d acc) = [] \<and> typeof_changed (classify pth d acc) = [])"
proof (cases d)
  case (DiffArray p i it)
  with assms show ?thesis
    by (cases it) (auto simp: typeof_changed_def Let_def)
qed (use assms in \<open>auto simp: typeof_changed_def\<close>)

lemma process_differences_invariant:
  assumes "\<And>d a a'. step d a = Inr a' \<Longrightarrow> P a \<Longrightarrow> P a'"
    and "P acc" and "process_differences step ds acc = Inr acc'"
  shows "P acc'"
  using assms(2,3)
proof (induction ds arbitrary: acc)
  case Nil
  then show ?case by simp
next
  case (Cons d ds)
  then show ?case
    by (cases "step d acc") (auto intro: assms(1))
qed

lemma process_difference_verdict:
  assumes "process_difference opts d a = Inr a'"
    and "(bd_incompatible a = []) = (bd_removed a = [] \<and> typeof_changed a = [])"
  shows "(bd_incompatible a' = []) = (bd_removed a' = [] \<and> typeof_changed a' = [])"
  using assms(1) classify_verdict [OF assms(2)] assms(2)
  by (auto simp: process_difference_def Let_def split: option.splits if_splits)

lemma with_total_not_error: "with_total acc \<noteq> comparison_error message"
proof
  assume eq: "with_total acc = comparison_error message"
  from arg_cong [OF eq, of bd_added] arg_cong [OF eq, of bd_removed]
    arg_cong [OF eq, of bd_modified] arg_cong [OF eq, of bd_total]
  show False
    by (simp add: with_total_def comparison_error_def no_diffs_def)
qed

lemma with_total_fields:
  "bd_incompatible (with_total acc) = bd_incompatible acc"
  "bd_removed (with_total acc) = bd_removed acc"
  "bd_added (with_total acc) = bd_added acc"
  "bd_modified (with_total acc) = bd_modified acc"
  "typeof_changed (with_total acc) = typeof_changed acc"
  by (simp_all add: with_total_def typeof_changed_def)

lemma process_differences_verdict:
  assumes "process_differences (process_difference opts) ds no_diffs = Inr acc"
  shows "(bd_incompatible acc = []) = (bd_removed acc = [] \<and> typeof_changed acc = [])"
  by (rule process_differences_invariant
      [where step = "process_difference opts"
         and P = "\<lambda>bd. (bd_incompatible bd = []) = (bd_removed bd = [] \<and> typeof_changed bd = [])",
       OF process_difference_verdict _ assms])
     (simp_all add: no_diffs_def typeof_changed_def)

lemma compareResponseBodies_verdict:
  "(bd_incompatible (compareResponseBodies opts a b) = []
      \<and> bd_removed (compareResponseBodies opts a b) = [])
   = (bd_removed (compareResponseBodies opts a b) = []
      \<and> typeof_changed (compareResponseBodies opts a b) = []
      \<and> typeof_opt a = typeof_opt b
      \<and> (\<forall>message. compareResponseBodies opts a b \<noteq> comparison_error message))"
proof (cases a)
  case None
  show ?thesis
  proof (cases b)
    case None
    with \<open>a = None\<close> show ?thesis
      by (simp add: compareResponseBodies_def no_diffs_def typeof_changed_def comparison_error_def)
  next
    case (Some y)
    with \<open>a = None\<close> show ?thesis
      using typeof_not_undefined [of y]
      by (auto simp: compareResponseBodies_def no_diffs_def)
  qed
next
  case (Some x)
  show ?thesis
  proof (cases b)
    case None
    with Some show ?thesis
      using typeof_not_undefined [of x]
      by (auto simp: compareResponseBodies_def no_diffs_def)
  next
    case b: (Some y)
    show ?thesis
    proof (cases "typeof x = typeof y")
      case False
      with Some b show ?thesis
        by (simp add: compareResponseBodies_def no_diffs_def)
    next
      case True
      show ?thesis
      proof (cases "typeof x \<noteq> ''object'' \<or> x = JNull \<or> y = JNull")
        case prim: True
        with Some b True show ?thesis
          by (auto simp: compareResponseBodies_def no_diffs_def typeof_changed_def
                comparison_error_def)
      next
        case deep: False
        show ?thesis
        proof (cases "process_differences (process_difference opts) (deepDiff_diff x y) no_diffs")
          case (Inl message)
          with Some b True deep show ?thesis
            by (auto simp: compareResponseBodies_def comparison_error_def no_diffs_def)
        next
          case (Inr acc)
          with Some b True deep have r: "compareResponseBodies opts a b = with_total acc"
            by (simp add: compareResponseBodies_def)
          from process_differences_verdict [OF Inr] show ?thesis
            unfolding r using True Some b
            by (auto simp: with_total_not_error with_total_fields)
        qed
      qed
    qed
  qed
qed

lemma deepDiff_elems_same:
  "(\<And>x p. x \<in> set xs \<Longrightarrow> deepDiff x x p = []) \<Longrightarrow> deepDiff_elems xs xs p i = []"
  by (induction xs arbitrary: i) simp_all

lemma deepDiff_fields_same:
  "(\<And>k v p. (k, v) \<in> set kvs \<Longrightarrow> map_of kvs' k = Some v \<and> deepDiff v v p = []) \<Longrightarrow>
   deepDiff_fields kvs kvs' p = []"
proof (induction kvs)
  case Nil
  show ?case by simp
next
  case (Cons kv kvs)
  obtain k v where kv: "kv = (k, v)" by (cases kv)
  from Cons.prems [of k v] kv have "map_of kvs' k = Some v" "\<And>p. deepDiff v v p = []"
    by simp_all
  moreover have "deepDiff_fields kvs kvs' p = []"
    by (rule Cons.IH) (use Cons.prems in auto)
  ultimately show ?case using kv by simp
qed

lemma deepDiff_same: "wf_json x \<Longrightarrow> deepDiff x x p = []"
proof (induction x arbitrary: p)
  case (JArr xs)
  then show ?case
    by (simp add: list_all_iff deepDiff_elems_same)
next
  case (JObj kvs)
  have "deepDiff_fields kvs kvs p = []"
  proof (rule deepDiff_fields_same)
    fix k v q
    assume kv: "(k, v) \<in> set kvs"
    with JObj.prems have "map_of kvs k = Some v" "wf_json v"
      by (auto simp: list_all_iff)
    moreover from kv have "v \<in> Basic_BNFs.snds (k, v)" by simp
    ultimately show "map_of kvs k = Some v \<and> deepDiff v v q = []"
      using JObj.IH kv by blast
  qed
  moreover have "filter (\<lambda>(k, w). k \<notin> set (map fst kvs) \<and> k \<noteq> []) kvs = []"
    by (force simp: filter_empty_conv)
  ultimately show ?case by simp
qed simp_all

lemma deepDiff_added_field:
  assumes "wf_json (JObj kvs)" and "k \<notin> set (map fst kvs)"
  shows "deepDiff (JObj kvs) (JObj (kvs @ [(k, v)])) p
           = (if k = [] then [] else [DiffNew (mk_path (p @ [PKey k])) v])"
proof -
  have "deepDiff_fields kvs (kvs @ [(k, v)]) p = []"
  proof (rule deepDiff_fields_same)
    fix k' v' q
    assume kv: "(k', v') \<in> set kvs"
    with assms(1) have "map_of kvs k' = Some v'" "wf_json v'"
      by (auto simp: list_all_iff)
    then show "map_of (kvs @ [(k, v)]) k' = Some v' \<and> deepDiff v' v' q = []"
      by (simp add: deepDiff_same)
  qed
  moreover have "filter (\<lambda>(k', w). k' \<notin> set (map fst kvs) \<and> k' \<noteq> []) kvs = []"
    by (force simp: filter_empty_conv)
  ultimately show ?thesis
    using assms(2) by simp
qed

lemma compareResponseBodies_added_field:
  assumes "wf_json (JObj kvs)" and "k \<notin> set (map fst kvs)"
  shows "bd_removed (compareResponseBodies opts (Some (JObj kvs)) (Some (JObj (kvs @ [(k, v)])))) = []"
    and "bd_incompatible (compareResponseBodies opts (Some (JObj kvs)) (Some (JObj (kvs @ [(k, v)])))) = []"
    and "bd_added (compareResponseBodies opts (Some (JObj kvs)) (Some (JObj (kvs @ [(k, v)]))))
           = (if k = [] \<or> shouldIgnoreField opts k then [] else [(k, v)])"
  using deepDiff_added_field [OF assms, of v "[]"]
  by (simp_all add: compareResponseBodies_def deepDiff_diff_def process_difference_def mk_path_def
        path_join_def no_diffs_def with_total_def Let_def)

lemma deepDiff_paths:
  "p \<noteq> [] \<Longrightarrow> \<forall>d \<in> set (deepDiff a b p). diff_path d \<noteq> None"
  "p \<noteq> [] \<Longrightarrow> \<forall>d \<in> set (deepDiff_elems xs ys p i). diff_path d \<noteq> None"
  "\<forall>d \<in> set (deepDiff_fields kvs kvs' p). diff_path d \<noteq> None"
proof (induction a b p and xs ys p i and kvs kvs' p
       rule: deepDiff_deepDiff_elems_deepDiff_fields.induct)
  case (1 xs r p)
  then show ?case by (cases r) (auto simp: mk_path_def)
next
  case (2 kvs r p)
  then show ?case by (cases r) (auto simp: mk_path_def)
next
  case (11 k v kvs kvs' p)
  then show ?case by (cases "map_of kvs' k") (auto simp: mk_path_def)
qed (auto simp: mk_path_def)

lemma deepDiff_object_paths:
  "\<forall>d \<in> set (deepDiff_diff (JObj kvs) (JObj kvs')). diff_path d \<noteq> None"
  using deepDiff_paths(3) [of kvs kvs' "[]"]
  by (auto simp: deepDiff_diff_def mk_path_def)

lemma process_differences_no_error:
  "\<forall>d \<in> set ds. diff_path d \<noteq> None \<Longrightarrow>
     \<exists>acc'. process_differences (process_difference opts) ds acc = Inr acc'"
proof (induction ds arbitrary: acc)
  case Nil
  show ?case by simp
next
  case (Cons d ds)
  then obtain p where "diff_path d = Some p" by auto
  then have "\<exists>a. process_difference opts d acc = Inr a"
    by (simp add: process_difference_def Let_def)
  then obtain a where "process_difference opts d acc = Inr a" ..
  with Cons show ?case by simp
qed

lemma compareResponseBodies_objects:
  "\<exists>acc. compareResponseBodies opts (Some (JObj kvs)) (Some (JObj kvs')) = with_total acc"
proof -
  from process_differences_no_error [OF deepDiff_object_paths]
  obtain acc where
    "process_differences (process_difference opts) (deepDiff_diff (JObj kvs) (JObj kvs')) no_diffs
       = Inr acc"
    by blast
  then show ?thesis by (auto simp: compareResponseBodies_def)
qed

lemma compareHeaders_same:
  "hd_added (compareHeaders h h) = []" "hd_removed (compareHeaders h h) = []"
  by (simp_all add: compareHeaders_def Let_def)

lemma fst_obj_assign: "set (map fst (obj_assign k v kvs)) = insert k (set (map fst kvs))"
  by (auto simp: obj_assign_def image_iff split: if_splits) force+


lemma fst_obj_assign': "fst ` set (obj_assign k v kvs) = insert k (fst ` set kvs)"
  using fst_obj_assign [of k v kvs] by simp

lemma mem_nonempty: "x \<in> set xs \<Longrightarrow> xs \<noteq> []"
  by auto

lemma keys_fold_normalize_headers:
  "fst ` set (fold (\<lambda>(key, v) normalizedHeaders.
             if toLowerCase key \<in> set ign then normalizedHeaders
             else obj_assign (toLowerCase key) v normalizedHeaders) hs acc)
   = fst ` set acc \<union> {toLowerCase k |k. k \<in> fst ` set hs \<and> toLowerCase k \<notin> set ign}"
proof (induction hs arbitrary: acc)
  case Nil
  show ?case by simp
next
  case (Cons kv hs)
  obtain k v where kv: "kv = (k, v)" by (cases kv)
  show ?case
    unfolding kv by (simp add: Cons.IH fst_obj_assign') blast
qed

lemma keys_normalize_headers:
  "set (map fst (normalize_headers toLowerCase opts hs))
     = {toLowerCase k |k. k \<in> fst ` set hs \<and> toLowerCase k \<notin> set (ignoreHeaders opts)}"
proof -
  have "normalize_headers toLowerCase opts hs
          = fold (\<lambda>(key, v) normalizedHeaders.
             if toLowerCase key \<in> set (ignoreHeaders opts) then normalizedHeaders
             else obj_assign (toLowerCase key) v normalizedHeaders) hs []"
    by (simp add: normalize_headers_def Let_def)
  then show ?thesis
    by (simp add: keys_fold_normalize_headers)
qed

lemma added_header_detected:
  assumes "r_headers original = Some oh" and "r_headers replayed = Some rh"
    and "(h, hv) \<in> set rh"
    and "toLowerCase h \<notin> set (ignoreHeaders opts)"
    and "toLowerCase h \<notin> toLowerCase ` fst ` set oh"
  shows "hd_added (headerDiffs (compareResponses JSON_parse toLowerCase opts original replayed)) \<noteq> []"
proof -
  have in_r: "toLowerCase h \<in> set (map fst (normalize_headers toLowerCase opts rh))"
    unfolding keys_normalize_headers using assms(3,4) by force
  have not_o: "toLowerCase h \<notin> set (map fst (normalize_headers toLowerCase opts oh))"
    unfolding keys_normalize_headers using assms(5) by auto
  have "toLowerCase h \<in> set (filter (\<lambda>key. key \<notin> set (map fst (normalize_headers toLowerCase opts oh)))
                                  (map fst (normalize_headers toLowerCase opts rh)))"
    using in_r not_o by simp
  then have "filter (\<lambda>key. key \<notin> set (map fst (normalize_headers toLowerCase opts oh)))
               (map fst (normalize_headers toLowerCase opts rh)) \<noteq> []"
    by (rule mem_nonempty)
  then show ?thesis
    using assms(1,2)
    by (simp add: compareResponses_def compareHeaders_def Let_def
          normalizeForComparison_response_def)
qed

text \<open>
  Claim C1, as the code has it.  For every pair of responses the verdict of
  \<open>compareResponses\<close> is: \<open>statusMatch\<close>, no added header, no removed header, no removed
  body field, no entry of \<open>modified\<close> whose \<open>typeof\<close> changed, the two (normalized)
  bodies of the same \<open>typeof\<close>, and a body comparison that did not end in its \<open>catch\<close>
  block.  When both bodies are objects the last two conditions hold, and the verdict is
  the conjunction of the first five.  In particular a replayed body that is the recorded
  object with one more field (same status, same headers) is compatible, and a replayed
  header whose lower-cased name is neither ignored nor among the recorded ones makes the
  interaction incompatible.
\<close>

theorem isCompatible_verdict:
  "isCompatible (compareResponses JSON_parse toLowerCase opts original replayed) =
     (statusMatch (compareResponses JSON_parse toLowerCase opts original replayed)
      \<and> hd_added (headerDiffs (compareResponses JSON_parse toLowerCase opts original replayed)) = []
      \<and> hd_removed (headerDiffs (compareResponses JSON_parse toLowerCase opts original replayed)) = []
      \<and> bd_removed (bodyDiffs (compareResponses JSON_parse toLowerCase opts original replayed)) = []
      \<and> typeof_changed (bodyDiffs (compareResponses JSON_parse toLowerCase opts original replayed)) = []
      \<and> typeof_opt (normalize_body JSON_parse (r_body original))
          = typeof_opt (normalize_body JSON_parse (r_body replayed))
      \<and> (\<forall>message. bodyDiffs (compareResponses JSON_parse toLowerCase opts original replayed)
                      \<noteq> comparison_error message))
   \<and> (normalize_body JSON_parse (r_body original) = Some (JObj kvs1) \<longrightarrow>
        normalize_body JSON_parse (r_body replayed) = Some (JObj kvs2) \<longrightarrow>
        isCompatible (compareResponses JSON_parse toLowerCase opts original replayed) =
          (statusMatch (compareResponses JSON_parse toLowerCase opts original replayed)
           \<and> hd_added (headerDiffs (compareResponses JSON_parse toLowerCase opts original replayed)) = []
           \<and> hd_removed (headerDiffs (compareResponses JSON_parse toLowerCase opts original replayed)) = []
           \<and> bd_removed (bodyDiffs (compareResponses JSON_parse toLowerCase opts original replayed)) = []
           \<and> typeof_changed (bodyDiffs (compareResponses JSON_parse toLowerCase opts original replayed)) = []))
   \<and> (wf_json (JObj kvs) \<longrightarrow> k \<notin> set (map fst kvs) \<longrightarrow>
        statusCode original = statusCode replayed \<longrightarrow> r_headers original = r_headers replayed \<longrightarrow>
        r_body original = Some (JObj kvs) \<longrightarrow> r_body replayed = Some (JObj (kvs @ [(k, v)])) \<longrightarrow>
        isCompatible (compareResponses JSON_parse toLowerCase opts original replayed))
   \<and> (r_headers original = Some oh \<longrightarrow> r_headers replayed = Some rh \<longrightarrow> (h, hv) \<in> set rh \<longrightarrow>
        toLowerCase h \<notin> set (ignoreHeaders opts) \<longrightarrow> toLowerCase h \<notin> toLowerCase ` fst ` set oh \<longrightarrow>
        \<not> isCompatible (compareResponses JSON_parse toLowerCase opts original replayed))"
proof (intro conjI impI)
  let ?a = "normalize_body JSON_parse (r_body original)"
  let ?b = "normalize_body JSON_parse (r_body replayed)"
  let ?c = "compareResponses JSON_parse toLowerCase opts original replayed"
  have bd: "bodyDiffs ?c = compareResponseBodies opts ?a ?b"
    by (simp add: compareResponses_def Let_def normalizeForComparison_response_def)
  have ic: "isCompatible ?c = (statusMatch ?c \<and> hd_added (headerDiffs ?c) = []
              \<and> hd_removed (headerDiffs ?c) = []
              \<and> bd_incompatible (bodyDiffs ?c) = [] \<and> bd_removed (bodyDiffs ?c) = [])"
    by (simp add: compareResponses_def Let_def)
  show "isCompatible ?c =
     (statusMatch ?c \<and> hd_added (headerDiffs ?c) = [] \<and> hd_removed (headerDiffs ?c) = []
      \<and> bd_removed (bodyDiffs ?c) = [] \<and> typeof_changed (bodyDiffs ?c) = []
      \<and> typeof_opt ?a = typeof_opt ?b
      \<and> (\<forall>message. bodyDiffs ?c \<noteq> comparison_error message))"
    unfolding ic using compareResponseBodies_verdict [of opts ?a ?b]
    unfolding bd by blast
  show "isCompatible ?c =
     (statusMatch ?c \<and> hd_added (headerDiffs ?c) = [] \<and> hd_removed (headerDiffs ?c) = []
      \<and> bd_removed (bodyDiffs ?c) = [] \<and> typeof_changed (bodyDiffs ?c) = [])"
    if a: "?a = Some (JObj kvs1)" and b: "?b = Some (JObj kvs2)"
  proof -
    from compareResponseBodies_objects [of opts kvs1 kvs2] obtain acc where
      "compareResponseBodies opts ?a ?b = with_total acc"
      unfolding a b by blast
    then have "\<forall>message. compareResponseBodies opts ?a ?b \<noteq> comparison_error message"
      by (simp add: with_total_not_error)
    moreover have "typeof_opt ?a = typeof_opt ?b"
      by (simp add: a b)
    ultimately show ?thesis
      unfolding ic using compareResponseBodies_verdict [of opts ?a ?b]
      unfolding bd by blast
  qed
next
  assume "wf_json (JObj kvs)" "k \<notin> set (map fst kvs)"
    and "statusCode original = statusCode replayed" "r_headers original = r_headers replayed"
    and "r_body original = Some (JObj kvs)" "r_body replayed = Some (JObj (kvs @ [(k, v)]))"
  then show "isCompatible (compareResponses JSON_parse toLowerCase opts original replayed)"
    by (simp add: compareResponses_def Let_def
          normalizeForComparison_response_def normalize_body_def compareHeaders_same
          compareResponseBodies_added_field)
next
  assume "r_headers original = Some oh" "r_headers replayed = Some rh" "(h, hv) \<in> set rh"
    "toLowerCase h \<notin> set (ignoreHeaders opts)" "toLowerCase h \<notin> toLowerCase ` fst ` set oh"
  then have "hd_added (headerDiffs (compareResponses JSON_parse toLowerCase opts original replayed)) \<noteq> []"
    by (rule added_header_detected)
  then show "\<not> isCompatible (compareResponses JSON_parse toLowerCase opts original replayed)"
    by (simp add: compareResponses_def Let_def)
qed

text \<open>
  An instance: the recorded response against a replay with one more body field, and
  against a replay with one more header.
\<close>

theorem isCompatible_verdict_witness:
  "isCompatible (compareResponses ex_JSON_parse ex_toLowerCase default_verifier_options
     ex_recorded ex_replayed_new_field)
   \<and> \<not> isCompatible (compareResponses ex_JSON_parse ex_toLowerCase default_verifier_options
         ex_recorded ex_replayed_new_header)
   \<and> typeof_changed (bodyDiffs (compareResponses ex_JSON_parse ex_toLowerCase
         default_verifier_options ex_recorded ex_replayed_new_field)) = []"
proof (intro conjI)
  have 1: "wf_json (JObj ex_products)" and 2: "''page'' \<notin> set (map fst ex_products)"
    by (simp_all add: ex_products_def)
  have 3: "statusCode ex_recorded = statusCode ex_replayed_new_field"
    and 4: "r_headers ex_recorded = r_headers ex_replayed_new_field"
    and 5: "r_body ex_recorded = Some (JObj ex_products)"
    and 6: "r_body ex_replayed_new_field = Some (JObj (ex_products @ [(''page'', JNum 1)]))"
    by (simp_all add: ex_recorded_def ex_replayed_new_field_def json_response_def)
  from isCompatible_verdict [where original = ex_recorded and replayed = ex_replayed_new_field
        and kvs = ex_products and k = "''page''" and v = "JNum 1",
        THEN conjunct2, THEN conjunct2, THEN conjunct1, rule_format, OF 1 2 3 4 5 6]
  show c: "isCompatible (compareResponses ex_JSON_parse ex_toLowerCase default_verifier_options
     ex_recorded ex_replayed_new_field)" .
  have 7: "normalize_body ex_JSON_parse (r_body ex_recorded) = Some (JObj ex_products)"
    and 8: "normalize_body ex_JSON_parse (r_body ex_replayed_new_field)
          = Some (JObj (ex_products @ [(''page'', JNum 1)]))"
    by (simp_all add: 5 6 normalize_body_def)
  from isCompatible_verdict [where original = ex_recorded and replayed = ex_replayed_new_field
        and JSON_parse = ex_JSON_parse and toLowerCase = ex_toLowerCase
        and opts = default_verifier_options,
        THEN conjunct2, THEN conjunct1, rule_format, OF 7 8] c
  show "typeof_changed (bodyDiffs (compareResponses ex_JSON_parse ex_toLowerCase
         default_verifier_options ex_recorded ex_replayed_new_field)) = []"
    by simp
next
  have 1: "r_headers ex_recorded = Some [(''Content-Type'', JStr ''application/json'')]"
    and 2: "r_headers ex_replayed_new_header
       = Some [(''Content-Type'', JStr ''application/json''), (''X-Trace'', JStr ''t1'')]"
    by (simp_all add: ex_recorded_def ex_replayed_new_header_def json_response_def)
  have 3: "(''X-Trace'', JStr ''t1'')
       \<in> set [(''Content-Type'', JStr ''application/json''), (''X-Trace'', JStr ''t1'')]"
    by simp
  have 4: "ex_toLowerCase ''X-Trace'' \<notin> set (ignoreHeaders default_verifier_options)"
    and 5: "ex_toLowerCase ''X-Trace''
          \<notin> ex_toLowerCase ` fst ` set [(''Content-Type'', JStr ''application/json'')]"
    by (simp_all add: default_verifier_options_def ex_toLowerCase_def)
  from isCompatible_verdict [where original = ex_recorded and replayed = ex_replayed_new_header
        and h = "''X-Trace''" and hv = "JStr ''t1''",
        THEN conjunct2, THEN conjunct2, THEN conjunct2, rule_format, OF 1 2 3 4 5]
  show "\<not> isCompatible (compareResponses ex_JSON_parse ex_toLowerCase default_verifier_options
          ex_recorded ex_replayed_new_header)" .
qed

text \<open>
  The claim's formula, with \<open>typeChanged\<close> as the specification defines it, fails in both
  directions.  Two bodies that are arrays of different length: the status matches, no
  header is added or removed, nothing is removed from the body, no modified value changes
  its type category, and the interaction is incompatible (the comparison ends in its
  \<open>catch\<close> block).  A field changing from a sequence to an object: \<open>typeChanged\<close> is
  not empty, and the interaction is compatible.
\<close>

theorem root_arrays_incompatible:
  "statusMatch (compareResponses ex_JSON_parse ex_toLowerCase default_verifier_options
      ex_list_short ex_list_long)
   \<and> hd_added (headerDiffs (compareResponses ex_JSON_parse ex_toLowerCase default_verifier_options
      ex_list_short ex_list_long)) = []
   \<and> hd_removed (headerDiffs (compareResponses ex_JSON_parse ex_toLowerCase default_verifier_options
      ex_list_short ex_list_long)) = []
   \<and> bd_removed (bodyDiffs (compareResponses ex_JSON_parse ex_toLowerCase default_verifier_options
      ex_list_short ex_list_long)) = []
   \<and> typeChanged (bodyDiffs (compareResponses ex_JSON_parse ex_toLowerCase default_verifier_options
      ex_list_short ex_list_long)) = []
   \<and> bodyDiffs (compareResponses ex_JSON_parse ex_toLowerCase default_verifier_options
      ex_list_short ex_list_long) = comparison_error (cannot_read_undefined ''join'')
   \<and> \<not> isCompatible (compareResponses ex_JSON_parse ex_toLowerCase default_verifier_options
      ex_list_short ex_list_long)
   \<and> typeChanged (bodyDiffs (compareResponses ex_JSON_parse ex_toLowerCase default_verifier_options
      ex_tags_array ex_tags_object)) = [(''tags'', JArr [JStr ''a''], JObj [(''a'', JNum 1)])]
   \<and> isCompatible (compareResponses ex_JSON_parse ex_toLowerCase default_verifier_options
      ex_tags_array ex_tags_object)"
  by code_simp

section \<open>Type changes\<close>






















section \<open>UUID values under the tolerances\<close>
















section \<open>The session summary\<close>

lemma replay_loop_eq:
  "replay_loop replayRequest compare ias (rs, s)
     = (rs @ map (replay_interaction replayRequest compare) ias,
        fold count_result (map (replay_interaction replayRequest compare) ias) s)"
  by (induction ias arbitrary: rs s) (simp_all add: Let_def)

lemma fold_count_result:
  "s_total (fold count_result rs s) = s_total s + length rs"
  "s_compatible (fold count_result rs s)
     = s_compatible s + length (filter (\<lambda>r. \<exists>c. ir_comparison r = Some c \<and> isCompatible c) rs)"
  "s_incompatible (fold count_result rs s)
     = s_incompatible s + length (filter (\<lambda>r. \<exists>c. ir_comparison r = Some c \<and> \<not> isCompatible c) rs)"
  "s_errors (fold count_result rs s)
     = s_errors s + length (filter (\<lambda>r. ir_comparison r = None) rs)"
proof (induction rs arbitrary: s)
  case Nil
  {
    case 1 show ?case by simp
  next
    case 2 show ?case by simp
  next
    case 3 show ?case by simp
  next
    case 4 show ?case by simp
  }
next
  case (Cons r rs)
  {
    case 1 show ?case by (cases r) (simp_all add: Cons.IH)
  next
    case 2 show ?case by (cases r) (simp_all add: Cons.IH)
  next
    case 3 show ?case by (cases r) (simp_all add: Cons.IH)
  next
    case 4 show ?case by (cases r) (simp_all add: Cons.IH)
  }
qed

lemma three_buckets:
  "length rs
     = length (filter (\<lambda>r. \<exists>c. ir_comparison r = Some c \<and> isCompatible c) rs)
     + length (filter (\<lambda>r. \<exists>c. ir_comparison r = Some c \<and> \<not> isCompatible c) rs)
     + length (filter (\<lambda>r. ir_comparison r = None) rs)"
proof (induction rs)
  case Nil
  show ?case by simp
next
  case (Cons r rs)
  then show ?case by (cases r) auto
qed

lemma replayAgainstContract_result:
  assumes "originalSessions sessionId = Some interactions"
  shows "replayAgainstContract originalSessions replayRequest compare sessionId
     = Inr \<lparr> interactionResults = map (replay_interaction replayRequest compare) interactions,
             res_summary = fold count_result (map (replay_interaction replayRequest compare) interactions)
                             \<lparr> s_total = 0, s_compatible = 0, s_incompatible = 0, s_errors = 0 \<rparr>,
             compatibilityScore =
               (if s_total (fold count_result (map (replay_interaction replayRequest compare) interactions)
                             \<lparr> s_total = 0, s_compatible = 0, s_incompatible = 0, s_errors = 0 \<rparr>) > 0
                then (real (s_compatible (fold count_result (map (replay_interaction replayRequest compare) interactions)
                             \<lparr> s_total = 0, s_compatible = 0, s_incompatible = 0, s_errors = 0 \<rparr>))
                      / real (s_total (fold count_result (map (replay_interaction replayRequest compare) interactions)
                             \<lparr> s_total = 0, s_compatible = 0, s_incompatible = 0, s_errors = 0 \<rparr>))) * 100
                else 0) \<rparr>"
  using assms by (simp add: replayAgainstContract_def replay_loop_eq)

text \<open>
  Claim C2.  For a session that is loaded, \<open>replayAgainstContract\<close> returns a result
  whose summary counts every interaction once: \<open>total\<close> is the number of interactions
  and equals \<open>compatible + incompatible + errors\<close>, the three counters being the numbers
  of results compared and compatible, compared and not compatible, and caught as errors;
  \<open>compatibilityScore\<close> is \<open>100 * compatible / total\<close>, and \<open>0\<close> when \<open>total = 0\<close>
  (the score as a real number).
\<close>

theorem summary_counts:
  assumes "originalSessions sessionId = Some interactions"
  shows "\<exists>res. replayAgainstContract originalSessions replayRequest compare sessionId = Inr res
     \<and> s_total (res_summary res) = length interactions
     \<and> s_total (res_summary res)
         = s_compatible (res_summary res) + s_incompatible (res_summary res) + s_errors (res_summary res)
     \<and> s_compatible (res_summary res)
         = length (filter (\<lambda>r. \<exists>c. ir_comparison r = Some c \<and> isCompatible c) (interactionResults res))
     \<and> s_incompatible (res_summary res)
         = length (filter (\<lambda>r. \<exists>c. ir_comparison r = Some c \<and> \<not> isCompatible c) (interactionResults res))
     \<and> s_errors (res_summary res)
         = length (filter (\<lambda>r. ir_comparison r = None) (interactionResults res))
     \<and> compatibilityScore res
         = (if s_total (res_summary res) = 0 then 0
            else 100 * real (s_compatible (res_summary res)) / real (s_total (res_summary res)))"
proof -
  note r = replayAgainstContract_result
    [where originalSessions = originalSessions and sessionId = sessionId, OF assms]
  show ?thesis
    unfolding r
    using three_buckets [of "map (replay_interaction replayRequest compare) interactions"]
    by (simp add: fold_count_result)
qed

text \<open>An instance: a session of one interaction.\<close>

theorem summary_counts_witness:
  "\<exists>res. replayAgainstContract (ex_session ex_recorded) (ex_replay ex_replayed_new_field)
            (returning (compareResponses ex_JSON_parse ex_toLowerCase default_verifier_options)) ''s1'' = Inr res
     \<and> s_total (res_summary res) = 1
     \<and> s_total (res_summary res)
         = s_compatible (res_summary res) + s_incompatible (res_summary res) + s_errors (res_summary res)
     \<and> compatibilityScore res
         = (if s_total (res_summary res) = 0 then 0
            else 100 * real (s_compatible (res_summary res)) / real (s_total (res_summary res)))"
proof -
  have s: "ex_session ex_recorded ''s1'' = Some [\<lparr> ia_request = ex_request, ia_response = ex_recorded \<rparr>]"
    by (simp add: ex_session_def)
  from summary_counts [where originalSessions = "ex_session ex_recorded" and sessionId = "''s1''"
      and replayRequest = "ex_replay ex_replayed_new_field"
      and compare = "returning (compareResponses ex_JSON_parse ex_toLowerCase default_verifier_options)", OF s]
  obtain res where r: "replayAgainstContract (ex_session ex_recorded) (ex_replay ex_replayed_new_field)
            (returning (compareResponses ex_JSON_parse ex_toLowerCase default_verifier_options)) ''s1'' = Inr res"
    "s_total (res_summary res) = length [\<lparr> ia_request = ex_request, ia_response = ex_recorded \<rparr>]"
    "s_total (res_summary res)
         = s_compatible (res_summary res) + s_incompatible (res_summary res) + s_errors (res_summary res)"
    "compatibilityScore res
         = (if s_total (res_summary res) = 0 then 0
            else 100 * real (s_compatible (res_summary res)) / real (s_total (res_summary res)))"
    by blast
  show ?thesis
    by (rule exI [of _ res]) (use r in simp)
qed

section \<open>Strict mode\<close>








section \<open>The request hash\<close>

lemma sort_eq_of_set_eq:
  fixes xs ys :: "'a::linorder list"
  assumes "distinct xs" "distinct ys" "set xs = set ys"
  shows "sort xs = sort ys"
  using assms by (intro sorted_distinct_set_unique) simp_all

lemma map_of_normalized:
  "map_of (map (\<lambda>(k, v). (k, f v)) kvs) k = map_option f (map_of kvs k)"
  by (induction kvs) auto

lemma keyperm_normalizeForHashing:
  "keyperm a b \<Longrightarrow> normalizeForHashing a = normalizeForHashing b"
proof (induction rule: keyperm.induct)
  case (kp_refl v)
  show ?case by simp
next
  case (kp_arr xs ys)
  then have "map normalizeForHashing xs = map normalizeForHashing ys"
    by (induction rule: list_all2_induct) simp_all
  then show ?case by simp
next
  case (kp_obj kvs kvs')
  have keys: "sort (map fst kvs) = sort (map fst kvs')"
    using kp_obj.hyps(1-3) by (rule sort_eq_of_set_eq)
  have vals: "map_option normalizeForHashing (map_of kvs k)
            = map_option normalizeForHashing (map_of kvs' k)"
    if "k \<in> set (map fst kvs)" for k
  proof -
    from that obtain v where v: "map_of kvs k = Some v"
      by (metis map_of_eq_None_iff not_None_eq set_map)
    from that kp_obj.hyps(3) obtain w where w: "map_of kvs' k = Some w"
      by (metis map_of_eq_None_iff not_None_eq set_map)
    from kp_obj.IH that have "normalizeForHashing (the (map_of kvs k)) = normalizeForHashing (the (map_of kvs' k))"
      by blast
    with v w show ?thesis by simp
  qed
  have "the (map_option normalizeForHashing (map_of kvs k))
      = the (map_option normalizeForHashing (map_of kvs' k))"
    if "k \<in> set (sort (map fst kvs'))" for k
    using that vals kp_obj.hyps(3) by simp
  then show ?case
    using keys by (simp add: map_of_normalized)
qed


lemma keyperm_truthy: "keyperm a b \<Longrightarrow> truthy a = truthy b"
  by (induction rule: keyperm.induct) simp_all

lemma fst_sanitize_fields: "map fst (sanitize_fields toLowerCase fs kvs) = map fst kvs"
  by (induction kvs) auto

lemma map_of_sanitize_fields:
  "map_of (sanitize_fields toLowerCase fs kvs) k =
     map_option (\<lambda>v. if is_sensitive_key toLowerCase fs k then REDACTED else recursiveSanitize toLowerCase fs v) (map_of kvs k)"
  by (induction kvs) auto

lemma list_all2_sanitize_elems:
  "list_all2 (\<lambda>x y. keyperm (recursiveSanitize toLowerCase fs x) (recursiveSanitize toLowerCase fs y)) xs ys \<Longrightarrow>
   list_all2 keyperm (sanitize_elems toLowerCase fs i xs) (sanitize_elems toLowerCase fs i ys)"
proof (induction xs arbitrary: ys i)
  case Nil
  then show ?case by simp
next
  case (Cons x xs)
  then obtain y ys' where ys: "ys = y # ys'" by (cases ys) auto
  with Cons show ?case by (auto intro: kp_refl)
qed

lemma keyperm_recursiveSanitize:
  "keyperm a b \<Longrightarrow> keyperm (recursiveSanitize toLowerCase fs a) (recursiveSanitize toLowerCase fs b)"
proof (induction rule: keyperm.induct)
  case (kp_refl v)
  show ?case by (rule keyperm.kp_refl)
next
  case (kp_arr xs ys)
  then have "list_all2 (\<lambda>x y. keyperm (recursiveSanitize toLowerCase fs x) (recursiveSanitize toLowerCase fs y)) xs ys"
    by (simp add: list_all2_conv_all_nth)
  then show ?case
    by (auto intro!: keyperm.kp_arr list_all2_sanitize_elems)
next
  case (kp_obj kvs kvs')
  have "keyperm (the (map_of (sanitize_fields toLowerCase fs kvs) k)) (the (map_of (sanitize_fields toLowerCase fs kvs') k))"
    if "k \<in> set (map fst kvs)" for k
  proof -
    from that obtain v where v: "map_of kvs k = Some v"
      by (metis map_of_eq_None_iff not_None_eq set_map)
    from that kp_obj.hyps(3) obtain w where w: "map_of kvs' k = Some w"
      by (metis map_of_eq_None_iff not_None_eq set_map)
    from kp_obj.IH that have "keyperm (recursiveSanitize toLowerCase fs (the (map_of kvs k))) (recursiveSanitize toLowerCase fs (the (map_of kvs' k)))"
      by blast
    with v w show ?thesis by (simp add: map_of_sanitize_fields keyperm.kp_refl)
  qed
  then show ?case
    using kp_obj.hyps(1-3)
    by (auto intro!: keyperm.kp_obj simp: fst_sanitize_fields)
qed


lemma captured_query_keyperm:
  assumes "rel_option keyperm (req_query r1) (req_query r2)"
  shows "keyperm (c_query (captureRequest toLowerCase opts r1)) (c_query (captureRequest toLowerCase opts r2))"
  using assms
  by (cases "req_query r1"; cases "req_query r2")
     (auto simp: captureRequest_def keyperm_truthy intro: keyperm.kp_refl)

lemma captured_body_keyperm:
  assumes "rel_option keyperm (req_body r1) (req_body r2)"
  shows "rel_option keyperm (c_body (captureRequest toLowerCase opts r1)) (c_body (captureRequest toLowerCase opts r2))"
  using assms
  by (cases "req_body r1"; cases "req_body r2")
     (auto simp: captureRequest_def sanitizeData_def keyperm_truthy keyperm_recursiveSanitize)

lemma normalizeForHashing_hash_input:
  "normalizeForHashing (hash_input r) =
     JObj ((case c_body r of Some b \<Rightarrow> [(''body'', normalizeForHashing b)] | None \<Rightarrow> [])
           @ [(''method'', JStr (c_method r)), (''path'', JStr (c_path r)),
              (''query'', normalizeForHashing (c_query r))])"
  by (cases "c_body r") (simp_all add: hash_input_def)

text \<open>
  Claim C5.  The request hash computed by \<open>recordInteraction\<close> is a function of method,
  path, query and body only: two incoming requests with the same method and path, whose
  queries and bodies are equal up to the order of object keys, get the same
  \<open>requestHash\<close>, whatever their headers and whatever the capture times \<open>t1\<close>,
  \<open>t2\<close>.  This holds for every serialiser, every digest function and every case
  conversion.
\<close>

theorem requestHash_depends_on_method_path_query_body:
  assumes "req_method r1 = req_method r2"
    and "req_path r1 = req_path r2"
    and "rel_option keyperm (req_query r1) (req_query r2)"
    and "rel_option keyperm (req_body r1) (req_body r2)"
  shows "requestHash (recordInteraction JSON_stringify sha256 toLowerCase opts t1 r1)
       = requestHash (recordInteraction JSON_stringify sha256 toLowerCase opts t2 r2)"
proof -
  let ?c1 = "captureRequest toLowerCase opts r1" and ?c2 = "captureRequest toLowerCase opts r2"
  have m: "c_method ?c1 = c_method ?c2" and p: "c_path ?c1 = c_path ?c2"
    using assms(1,2) by (simp_all add: captureRequest_def)
  have q: "normalizeForHashing (c_query ?c1) = normalizeForHashing (c_query ?c2)"
    by (rule keyperm_normalizeForHashing) (rule captured_query_keyperm [OF assms(3)])
  have b: "map_option normalizeForHashing (c_body ?c1) = map_option normalizeForHashing (c_body ?c2)"
    using captured_body_keyperm [OF assms(4), where opts = opts and toLowerCase = toLowerCase]
    by (cases "c_body ?c1"; cases "c_body ?c2") (auto dest: keyperm_normalizeForHashing)
  have "normalizeForHashing (hash_input ?c1) = normalizeForHashing (hash_input ?c2)"
    using m p q b unfolding normalizeForHashing_hash_input
    by (cases "c_body ?c1"; cases "c_body ?c2") auto
  then show ?thesis
    by (simp add: recordInteraction_def generateContentHash_def Let_def)
qed

lemma ex_keyperm_query: "keyperm (JObj [(''page'', JStr ''1''), (''sort'', JStr ''asc'')]) (JObj [(''sort'', JStr ''asc''), (''page'', JStr ''1'')])"
  by (rule keyperm.kp_obj) (auto intro: keyperm.kp_refl)

lemma ex_keyperm_body: "keyperm (JObj [(''item'', JStr ''book''), (''qty'', JNum 2)]) (JObj [(''qty'', JNum 2), (''item'', JStr ''book'')])"
  by (rule keyperm.kp_obj) (auto intro: keyperm.kp_refl)

text \<open>
  An instance: the two example requests differ in headers, in capture time and in the key
  order of query and body, and hash alike.
\<close>

theorem requestHash_witness:
  "req_headers ex_req1 \<noteq> req_headers ex_req2 \<and> req_body ex_req1 \<noteq> req_body ex_req2 \<and>
   requestHash (recordInteraction ex_stringify ex_digest ex_toLowerCase default_recorder_options ''2024-01-01T00:00:00.000Z'' ex_req1)
 = requestHash (recordInteraction ex_stringify ex_digest ex_toLowerCase default_recorder_options ''2024-06-30T12:00:00.000Z'' ex_req2)"
proof -
  have "rel_option keyperm (req_query ex_req1) (req_query ex_req2)"
    by (simp add: ex_req1_def ex_req2_def ex_keyperm_query)
  moreover have "rel_option keyperm (req_body ex_req1) (req_body ex_req2)"
    by (simp add: ex_req1_def ex_req2_def ex_keyperm_body)
  moreover have "req_method ex_req1 = req_method ex_req2" "req_path ex_req1 = req_path ex_req2"
    by (simp_all add: ex_req1_def ex_req2_def)
  ultimately show ?thesis
    using requestHash_depends_on_method_path_query_body [of ex_req1 ex_req2]
    by (simp add: ex_req1_def ex_req2_def)
qed

section \<open>Redaction at capture time\<close>

lemma truthy_REDACTED: "truthy REDACTED"
  by (simp add: REDACTED_def)

lemma redact_header_map:
  "redact_header h hs =
     map (\<lambda>(k, v). if k = h \<and> truthy_opt (map_of hs h) then (k, REDACTED) else (k, v)) hs"
  by (cases "truthy_opt (map_of hs h)") (auto simp: redact_header_def intro: map_idI [symmetric])

lemma map_of_redact_header:
  "map_of (redact_header h hs) k =
     (if k = h \<and> truthy_opt (map_of hs h) then Some REDACTED else map_of hs k)"
proof -
  have "map_of (map (\<lambda>(k, v). if k = h then (k, REDACTED) else (k, v)) hs) k =
        (if k = h then map_option (\<lambda>_. REDACTED) (map_of hs k) else map_of hs k)"
    by (induction hs) auto
  then show ?thesis
    by (cases "map_of hs h") (auto simp: redact_header_def)
qed

lemma truthy_map_of_redact_header:
  "truthy_opt (map_of (redact_header h hs) k) = truthy_opt (map_of hs k)"
  by (simp add: map_of_redact_header truthy_REDACTED)

lemma fold_redact_header:
  "(\<And>k. truthy_opt (map_of hs k) = truthy_opt (m k)) \<Longrightarrow>
   fold redact_header hdrs hs =
     map (\<lambda>(k, v). if k \<in> set hdrs \<and> truthy_opt (m k) then (k, REDACTED) else (k, v)) hs"
proof (induction hdrs arbitrary: hs)
  case Nil
  show ?case by (simp add: map_idI [symmetric])
next
  case (Cons h hdrs)
  have "fold redact_header (h # hdrs) hs = fold redact_header hdrs (redact_header h hs)"
    by simp
  also have "\<dots> = map (\<lambda>(k, v). if k \<in> set hdrs \<and> truthy_opt (m k) then (k, REDACTED) else (k, v))
                     (redact_header h hs)"
    by (rule Cons.IH) (simp add: truthy_map_of_redact_header Cons.prems)
  also have "\<dots> = map (\<lambda>(k, v). if k \<in> set (h # hdrs) \<and> truthy_opt (m k) then (k, REDACTED)
                                  else (k, v)) hs"
    by (auto simp: redact_header_map Cons.prems)
  finally show ?case .
qed

lemma filterSensitiveHeaders_map:
  "filterSensitiveHeaders opts hs =
     map (\<lambda>(h, v). if h \<in> set (sensitiveHeaders opts) \<and> truthy_opt (map_of hs h)
                     then (h, REDACTED) else (h, v)) hs"
  unfolding filterSensitiveHeaders_def by (rule fold_redact_header) simp

lemma map_of_index_keys_sanitize_elems:
  "map_of (index_keys_from i (sanitize_elems toLowerCase fs i xs)) k =
     map_option (\<lambda>v. if is_sensitive_key toLowerCase fs k then REDACTED
                      else recursiveSanitize toLowerCase fs v)
       (map_of (index_keys_from i xs) k)"
  by (induction xs arbitrary: i) auto

lemma own_property_recursiveSanitize:
  "own_property (recursiveSanitize toLowerCase fs d) k =
     map_option (\<lambda>v. if is_sensitive_key toLowerCase fs k then REDACTED
                      else recursiveSanitize toLowerCase fs v)
       (own_property d k)"
  by (cases d) (simp_all add: map_of_sanitize_fields map_of_index_keys_sanitize_elems index_keys_def)

lemma lookup_path_append:
  "lookup_path d (ks @ ks') =
     (case lookup_path d ks of None \<Rightarrow> None | Some w \<Rightarrow> lookup_path w ks')"
  by (induction ks arbitrary: d) (auto split: option.splits)

lemma sensitive_field_redacted:
  "is_sensitive_key toLowerCase fs k \<Longrightarrow>
   lookup_path (recursiveSanitize toLowerCase fs d) (ks @ [k]) = Some v \<Longrightarrow> v = REDACTED"
proof (induction ks arbitrary: d)
  case Nil
  then show ?case
    by (auto simp: own_property_recursiveSanitize split: option.splits)
next
  case (Cons k' ks)
  show ?case
  proof (cases "own_property d k'")
    case None
    with Cons.prems(2) show ?thesis
      by (simp add: own_property_recursiveSanitize)
  next
    case (Some w)
    show ?thesis
    proof (cases "is_sensitive_key toLowerCase fs k'")
      case True
      with Some Cons.prems(2) show ?thesis
        by (cases "ks @ [k]") (simp_all add: own_property_recursiveSanitize REDACTED_def)
    next
      case False
      with Some Cons.prems(2)
      have "lookup_path (recursiveSanitize toLowerCase fs w) (ks @ [k]) = Some v"
        by (simp add: own_property_recursiveSanitize)
      with Cons.IH Cons.prems(1) show ?thesis by blast
    qed
  qed
qed

lemma other_fields_unchanged:
  "\<forall>k \<in> set ks. \<not> is_sensitive_key toLowerCase fs k \<Longrightarrow>
   lookup_path (recursiveSanitize toLowerCase fs d) ks
     = map_option (recursiveSanitize toLowerCase fs) (lookup_path d ks)"
proof (induction ks arbitrary: d)
  case Nil
  show ?case by simp
next
  case (Cons k ks)
  then show ?case
    by (cases "own_property d k") (simp_all add: own_property_recursiveSanitize)
qed

lemma present_sensitive_field_redacted:
  assumes "\<forall>k' \<in> set ks. \<not> is_sensitive_key toLowerCase fs k'"
    and "is_sensitive_key toLowerCase fs k"
    and "lookup_path d (ks @ [k]) = Some v"
  shows "lookup_path (recursiveSanitize toLowerCase fs d) (ks @ [k]) = Some REDACTED"
proof -
  from assms(3) obtain w where w: "lookup_path d ks = Some w" and v: "own_property w k = Some v"
    by (auto simp: lookup_path_append split: option.splits)
  from other_fields_unchanged [OF assms(1), of d] w
  have "lookup_path (recursiveSanitize toLowerCase fs d) ks
          = Some (recursiveSanitize toLowerCase fs w)"
    by simp
  with v assms(2) show ?thesis
    by (simp add: lookup_path_append own_property_recursiveSanitize)
qed

lemma length_sanitize_elems: "length (sanitize_elems toLowerCase fs i xs) = length xs"
  by (induction xs arbitrary: i) simp_all

lemma node_sanitize_fields:
  "map (\<lambda>(k, v). (k, JNull)) (sanitize_fields toLowerCase fs kvs) = map (\<lambda>(k, v). (k, JNull)) kvs"
  by (induction kvs) auto

lemma node_recursiveSanitize: "node (recursiveSanitize toLowerCase fs v) = node v"
proof (cases v)
  case (JArr xs)
  have "map (\<lambda>x. JNull) (sanitize_elems toLowerCase fs 0 xs) = map (\<lambda>x. JNull) xs"
    by (simp add: map_replicate_const length_sanitize_elems)
  with JArr show ?thesis by simp
next
  case (JObj kvs)
  then show ?thesis by (simp add: node_sanitize_fields)
qed simp_all

lemma fst_filterSensitiveCookies:
  "map fst (filterSensitiveCookies toLowerCase cookies) = map fst cookies"
  by (induction cookies) (auto simp: filterSensitiveCookies_def)

lemma map_of_filterSensitiveCookies:
  "map_of (filterSensitiveCookies toLowerCase cookies) k =
     (if is_sensitive_key toLowerCase [''session'', ''auth'', ''token''] k
      then map_option (\<lambda>v. REDACTED) (map_of cookies k) else map_of cookies k)"
  by (induction cookies) (auto simp: filterSensitiveCookies_def)

text \<open>
  Claim C10, as the code has it.  The captured request holds the method and the path as
  received and the query as received (\<open>{}\<close> for a missing one).  When headers are kept,
  they are the received ones in their order, each sensitive header whose value is truthy
  (present and not empty) holding \<open>[REDACTED]\<close> and every other header, a sensitive
  one with an empty value included, holding its value.  When bodies are kept and the body
  is truthy, the captured body is \<open>sanitizeData\<close> of it, and for every value \<open>b\<close>:
  a field of \<open>sanitizeData b\<close> under a sensitive key, at any depth, holds
  \<open>[REDACTED]\<close>; a field of \<open>b\<close> under a sensitive key, reached through keys that are
  not sensitive, is there and holds \<open>[REDACTED]\<close>; along a path of keys (array indices
  included) none of which is sensitive, what \<open>b\<close> has is there with the same root: an
  array of the same length, an object with the same keys, the same primitive value; and
  what \<open>b\<close> does not have is not there.  The response is captured as it is.

  The recorder with cookies captures method, path, query, headers and body of the request
  in the same way, with the default lists; it stores \<open>url\<close> as received, replaces the
  value of every cookie whose lower-cased name contains \<open>session\<close>, \<open>auth\<close> or
  \<open>token\<close> by \<open>[REDACTED]\<close> and keeps the other cookies; and it passes the response
  body through \<open>sanitizeData\<close> as well.
\<close>

theorem captured_request_redaction:
  "c_method (captureRequest toLowerCase opts req) = req_method req
   \<and> c_path (captureRequest toLowerCase opts req) = req_path req
   \<and> c_query (captureRequest toLowerCase opts req)
       = (if truthy_opt (req_query req) then the (req_query req) else JObj [])
   \<and> c_headers (captureRequest toLowerCase opts req)
       = (if includeHeaders opts
          then Some (map (\<lambda>(h, v). if h \<in> set (sensitiveHeaders opts)
                                        \<and> truthy_opt (map_of (req_headers req) h)
                                     then (h, REDACTED) else (h, v))
                       (req_headers req))
          else None)
   \<and> c_body (captureRequest toLowerCase opts req)
       = (if includeBody opts \<and> truthy_opt (req_body req)
          then map_option (sanitizeData toLowerCase opts) (req_body req) else None)
   \<and> (is_sensitive_key toLowerCase (sensitiveFields opts) k \<longrightarrow>
        lookup_path (sanitizeData toLowerCase opts b) (ks @ [k]) = Some v \<longrightarrow> v = REDACTED)
   \<and> ((\<forall>k' \<in> set ks. \<not> is_sensitive_key toLowerCase (sensitiveFields opts) k') \<longrightarrow>
        is_sensitive_key toLowerCase (sensitiveFields opts) k \<longrightarrow>
        lookup_path b (ks @ [k]) = Some v \<longrightarrow>
        lookup_path (sanitizeData toLowerCase opts b) (ks @ [k]) = Some REDACTED)
   \<and> ((\<forall>k' \<in> set ks. \<not> is_sensitive_key toLowerCase (sensitiveFields opts) k') \<longrightarrow>
        lookup_path b ks = Some v \<longrightarrow>
        (\<exists>w. lookup_path (sanitizeData toLowerCase opts b) ks = Some w \<and> node w = node v))
   \<and> ((\<forall>k' \<in> set ks. \<not> is_sensitive_key toLowerCase (sensitiveFields opts) k') \<longrightarrow>
        lookup_path b ks = None \<longrightarrow>
        lookup_path (sanitizeData toLowerCase opts b) ks = None)
   \<and> cr_statusCode (captureResponse opts res) = res_statusCode res
   \<and> cr_statusMessage (captureResponse opts res) = res_statusMessage res
   \<and> cr_headers (captureResponse opts res) = (if includeHeaders opts then res_headers res else None)
   \<and> cr_body (captureResponse opts res)
       = (if includeBody opts \<and> truthy_opt (res_body res) then res_body res else None)
   \<and> captured_request.truncate (captureRequest_003 toLowerCase opts3 req3)
       = captureRequest toLowerCase
           (default_recorder_options\<lparr> includeHeaders := includeHeaders_003 opts3,
                                      includeBody := includeBody_003 opts3 \<rparr>)
           (incoming_request.truncate req3)
   \<and> c_url (captureRequest_003 toLowerCase opts3 req3) = req_url req3
   \<and> c_cookies (captureRequest_003 toLowerCase opts3 req3)
       = (if includeCookies opts3
          then map_option (filterSensitiveCookies toLowerCase) (req_cookies req3) else None)
   \<and> map fst (filterSensitiveCookies toLowerCase cookies) = map fst cookies
   \<and> map_of (filterSensitiveCookies toLowerCase cookies) name
       = (if is_sensitive_key toLowerCase [''session'', ''auth'', ''token''] name
          then map_option (\<lambda>v. REDACTED) (map_of cookies name) else map_of cookies name)
   \<and> captureResponse_003 toLowerCase opts3 res
       = (captureResponse
            (default_recorder_options\<lparr> includeHeaders := includeHeaders_003 opts3,
                                       includeBody := includeBody_003 opts3 \<rparr>) res)
         \<lparr> cr_body :=
             (if includeBody_003 opts3 \<and> truthy_opt (res_body res)
              then map_option (sanitizeData toLowerCase default_recorder_options) (res_body res)
              else None) \<rparr>"
proof (intro conjI impI)
  show "c_method (captureRequest toLowerCase opts req) = req_method req"
    and "c_path (captureRequest toLowerCase opts req) = req_path req"
    by (simp_all add: captureRequest_def)
  show "c_query (captureRequest toLowerCase opts req)
       = (if truthy_opt (req_query req) then the (req_query req) else JObj [])"
    by (cases "req_query req") (simp_all add: captureRequest_def)
  show "c_headers (captureRequest toLowerCase opts req)
       = (if includeHeaders opts
          then Some (map (\<lambda>(h, v). if h \<in> set (sensitiveHeaders opts)
                                        \<and> truthy_opt (map_of (req_headers req) h)
                                     then (h, REDACTED) else (h, v))
                       (req_headers req))
          else None)"
    by (simp add: captureRequest_def filterSensitiveHeaders_map)
  show "c_body (captureRequest toLowerCase opts req)
       = (if includeBody opts \<and> truthy_opt (req_body req)
          then map_option (sanitizeData toLowerCase opts) (req_body req) else None)"
    by (cases "req_body req") (simp_all add: captureRequest_def)
next
  assume "is_sensitive_key toLowerCase (sensitiveFields opts) k"
    and "lookup_path (sanitizeData toLowerCase opts b) (ks @ [k]) = Some v"
  then show "v = REDACTED"
    unfolding sanitizeData_def by (rule sensitive_field_redacted)
next
  assume "\<forall>k' \<in> set ks. \<not> is_sensitive_key toLowerCase (sensitiveFields opts) k'"
    and "is_sensitive_key toLowerCase (sensitiveFields opts) k"
    and "lookup_path b (ks @ [k]) = Some v"
  then show "lookup_path (sanitizeData toLowerCase opts b) (ks @ [k]) = Some REDACTED"
    unfolding sanitizeData_def by (rule present_sensitive_field_redacted)
next
  assume clean: "\<forall>k' \<in> set ks. \<not> is_sensitive_key toLowerCase (sensitiveFields opts) k'"
    and "lookup_path b ks = Some v"
  with other_fields_unchanged [OF clean, of b]
  show "\<exists>w. lookup_path (sanitizeData toLowerCase opts b) ks = Some w \<and> node w = node v"
    by (simp add: sanitizeData_def node_recursiveSanitize)
next
  assume clean: "\<forall>k' \<in> set ks. \<not> is_sensitive_key toLowerCase (sensitiveFields opts) k'"
    and "lookup_path b ks = None"
  with other_fields_unchanged [OF clean, of b]
  show "lookup_path (sanitizeData toLowerCase opts b) ks = None"
    by (simp add: sanitizeData_def)
next
  show "cr_statusCode (captureResponse opts res) = res_statusCode res"
    and "cr_statusMessage (captureResponse opts res) = res_statusMessage res"
    and "cr_headers (captureResponse opts res) = (if includeHeaders opts then res_headers res else None)"
    by (simp_all add: captureResponse_def)
  show "cr_body (captureResponse opts res)
       = (if includeBody opts \<and> truthy_opt (res_body res) then res_body res else None)"
    by (cases "res_body res") (simp_all add: captureResponse_def)
  show "captured_request.truncate (captureRequest_003 toLowerCase opts3 req3)
       = captureRequest toLowerCase
           (default_recorder_options\<lparr> includeHeaders := includeHeaders_003 opts3,
                                      includeBody := includeBody_003 opts3 \<rparr>)
           (incoming_request.truncate req3)"
    by (cases "req_body req3")
       (simp_all add: captureRequest_003_def captureRequest_def captured_request.truncate_def
          incoming_request.truncate_def default_recorder_options_def
          filterSensitiveHeaders_def filterSensitiveHeaders_003_def
          sanitizeData_def sanitizeData_003_def)
  show "c_url (captureRequest_003 toLowerCase opts3 req3) = req_url req3"
    by (simp add: captureRequest_003_def)
  show "c_cookies (captureRequest_003 toLowerCase opts3 req3)
       = (if includeCookies opts3
          then map_option (filterSensitiveCookies toLowerCase) (req_cookies req3) else None)"
    by (cases "req_cookies req3") (simp_all add: captureRequest_003_def)
  show "map fst (filterSensitiveCookies toLowerCase cookies) = map fst cookies"
    by (rule fst_filterSensitiveCookies)
  show "map_of (filterSensitiveCookies toLowerCase cookies) name
       = (if is_sensitive_key toLowerCase [''session'', ''auth'', ''token''] name
          then map_option (\<lambda>v. REDACTED) (map_of cookies name) else map_of cookies name)"
    by (rule map_of_filterSensitiveCookies)
  show "captureResponse_003 toLowerCase opts3 res
       = (captureResponse
            (default_recorder_options\<lparr> includeHeaders := includeHeaders_003 opts3,
                                       includeBody := includeBody_003 opts3 \<rparr>) res)
         \<lparr> cr_body :=
             (if includeBody_003 opts3 \<and> truthy_opt (res_body res)
              then map_option (sanitizeData toLowerCase default_recorder_options) (res_body res)
              else None) \<rparr>"
    by (cases "res_body res")
       (simp_all add: captureResponse_003_def captureResponse_def default_recorder_options_def
          sanitizeData_def sanitizeData_003_def)
qed

text \<open>
  The login request under the default options: its cookie header, its nested \<open>apiKey\<close>
  and \<open>Password\<close> fields, and the fields beside them.
\<close>

theorem captured_request_redaction_witness:
  "c_headers (captureRequest ex_toLowerCase default_recorder_options ex_req_login)
     = Some [(''cookie'', JStr ''[REDACTED]''), (''accept'', JStr ''*/*'')]
   \<and> c_body (captureRequest ex_toLowerCase default_recorder_options ex_req_login)
     = Some (JObj [(''user'', JStr ''ann''),
                   (''profile'', JObj [(''apiKey'', JStr ''[REDACTED]''), (''age'', JNum 30)]),
                   (''items'', JArr [JObj [(''Password'', JStr ''[REDACTED]'')]])])
   \<and> lookup_path (sanitizeData ex_toLowerCase default_recorder_options (the (req_body ex_req_login)))
       [''items'', ''0'', ''Password''] = Some REDACTED
   \<and> (\<exists>w. lookup_path (sanitizeData ex_toLowerCase default_recorder_options
                          (the (req_body ex_req_login))) [''profile'', ''age''] = Some w
          \<and> node w = node (JNum 30))
   \<and> lookup_path (sanitizeData ex_toLowerCase default_recorder_options (the (req_body ex_req_login)))
       [''profile'', ''name''] = None"
proof (intro conjI)
  let ?fs = "sensitiveFields default_recorder_options"
  let ?b = "the (req_body ex_req_login)"
  have eval:
    "c_headers (captureRequest ex_toLowerCase default_recorder_options ex_req_login)
       = Some [(''cookie'', JStr ''[REDACTED]''), (''accept'', JStr ''*/*'')]
     \<and> c_body (captureRequest ex_toLowerCase default_recorder_options ex_req_login)
       = Some (JObj [(''user'', JStr ''ann''),
                     (''profile'', JObj [(''apiKey'', JStr ''[REDACTED]''), (''age'', JNum 30)]),
                     (''items'', JArr [JObj [(''Password'', JStr ''[REDACTED]'')]])])"
    by code_simp
  from eval show "c_headers (captureRequest ex_toLowerCase default_recorder_options ex_req_login)
     = Some [(''cookie'', JStr ''[REDACTED]''), (''accept'', JStr ''*/*'')]" ..
  from eval show "c_body (captureRequest ex_toLowerCase default_recorder_options ex_req_login)
     = Some (JObj [(''user'', JStr ''ann''),
                   (''profile'', JObj [(''apiKey'', JStr ''[REDACTED]''), (''age'', JNum 30)]),
                   (''items'', JArr [JObj [(''Password'', JStr ''[REDACTED]'')]])])" ..
  have clean_items: "\<forall>k' \<in> set [''items'', ''0'']. \<not> is_sensitive_key ex_toLowerCase ?fs k'"
    by code_simp
  have sens: "is_sensitive_key ex_toLowerCase ?fs ''Password''"
    by code_simp
  have there: "lookup_path ?b ([''items'', ''0''] @ [''Password'']) = Some (JStr ''pw'')"
    by code_simp
  from captured_request_redaction [where toLowerCase = ex_toLowerCase
      and opts = default_recorder_options and b = ?b and ks = "[''items'', ''0'']"
      and k = "''Password''" and v = "JStr ''pw''",
      THEN conjunct2, THEN conjunct2, THEN conjunct2, THEN conjunct2, THEN conjunct2,
      THEN conjunct2, THEN conjunct1, rule_format, OF clean_items [rule_format] sens there]
  show "lookup_path (sanitizeData ex_toLowerCase default_recorder_options ?b)
          [''items'', ''0'', ''Password''] = Some REDACTED"
    by simp
  have clean_age: "\<forall>k' \<in> set [''profile'', ''age'']. \<not> is_sensitive_key ex_toLowerCase ?fs k'"
    by code_simp
  have age: "lookup_path ?b [''profile'', ''age''] = Some (JNum 30)"
    by code_simp
  from captured_request_redaction [where toLowerCase = ex_toLowerCase
      and opts = default_recorder_options and b = ?b and ks = "[''profile'', ''age'']"
      and v = "JNum 30",
      THEN conjunct2, THEN conjunct2, THEN conjunct2, THEN conjunct2, THEN conjunct2,
      THEN conjunct2, THEN conjunct2, THEN conjunct1, rule_format, OF clean_age [rule_format] age]
  show "\<exists>w. lookup_path (sanitizeData ex_toLowerCase default_recorder_options ?b)
              [''profile'', ''age''] = Some w \<and> node w = node (JNum 30)" .
  have clean_name: "\<forall>k' \<in> set [''profile'', ''name'']. \<not> is_sensitive_key ex_toLowerCase ?fs k'"
    by code_simp
  have name: "lookup_path ?b [''profile'', ''name''] = None"
    by code_simp
  from captured_request_redaction [where toLowerCase = ex_toLowerCase
      and opts = default_recorder_options and b = ?b and ks = "[''profile'', ''name'']",
      THEN conjunct2, THEN conjunct2, THEN conjunct2, THEN conjunct2, THEN conjunct2,
      THEN conjunct2, THEN conjunct2, THEN conjunct2, THEN conjunct1, rule_format,
      OF clean_name [rule_format] name]
  show "lookup_path (sanitizeData ex_toLowerCase default_recorder_options ?b)
          [''profile'', ''name''] = None" .
qed

text \<open>
  A sensitive header with an empty value is not redacted: the guard
  \<open>if (filteredHeaders[header])\<close> tests the value, not the presence of the header.
  And the request's headers and body are not all that is redacted: the recorder with
  cookies replaces the value of the cookie \<open>sessionId\<close> and of the field \<open>token\<close>
  in the response body.
\<close>

theorem empty_sensitive_header_kept:
  "c_headers (captureRequest ex_toLowerCase default_recorder_options ex_req_empty_auth)
     = Some [(''authorization'', JStr []), (''accept'', JStr ''*/*'')]
   \<and> c_cookies (captureRequest_003 ex_toLowerCase default_recorder_options_003 ex_req_cookies)
     = Some [(''sessionId'', JStr ''[REDACTED]''), (''theme'', JStr ''dark'')]
   \<and> cr_body (captureResponse_003 ex_toLowerCase default_recorder_options_003 ex_res_token)
     = Some (JObj [(''token'', JStr ''[REDACTED]''), (''user'', JStr ''ann'')])"
  by code_simp

section \<open>Timestamp equivalence\<close>

lemma strict_eq_imp_eq: "strict_eq a b \<Longrightarrow> a = b"
  by (cases a) simp_all

lemma timestamps_equivalent_iff:
  assumes "isLikelyTimestamp rt tol pth l = Inr True" and "isLikelyTimestamp rt tol pth r = Inr True"
    and "l \<noteq> r"
    and "toTimestamp rt l = Some t1" and "toTimestamp rt r = Some t2"
    and "t1 \<noteq> 0" and "t2 \<noteq> 0"
  shows "areValuesEquivalent rt tol pth l r
       = Inr (\<bar>t1 - t2\<bar> \<le> timestampDriftSeconds tol * 1000)"
proof -
  from assms(3) have "\<not> strict_eq l r" using strict_eq_imp_eq by blast
  with assms(1,2) have "areValuesEquivalent rt tol pth l r = Inr (areTimestampsEquivalent rt tol l r)"
    by (simp add: areValuesEquivalent_def)
  also have "areTimestampsEquivalent rt tol l r = (\<bar>t1 - t2\<bar> / 1000 \<le> timestampDriftSeconds tol)"
    using assms(4-7) by (simp add: areTimestampsEquivalent_def Let_def)
  also have "\<dots> = (\<bar>t1 - t2\<bar> \<le> timestampDriftSeconds tol * 1000)"
    by (simp add: pos_divide_le_eq)
  finally show ?thesis .
qed

lemma iso_string_and_epoch_millis:
  assumes "isoDatePattern s" and "rt_Date_parse rt s = Some t"
    and "946684800000 < t" and "t \<le> rt_Date_now rt" and "0 \<le> timestampDriftSeconds tol"
    and "timestampFields tol = Some fs"
  shows "areValuesEquivalent rt tol pth (JStr s) (JNum t) = Inr True"
proof -
  have l: "isLikelyTimestamp rt tol pth (JStr s) = Inr True"
    and r: "isLikelyTimestamp rt tol pth (JNum t) = Inr True"
    using assms(1,3,4,6) by (simp_all add: isLikelyTimestamp_def Let_def)
  have t1: "toTimestamp rt (JStr s) = Some t"
    using assms(2) by (simp add: toTimestamp_def)
  have t2: "toTimestamp rt (JNum t) = Some t"
    using assms(3) by (simp add: toTimestamp_def number_toTimestamp_def)
  from assms(3) have nz: "t \<noteq> 0" by simp
  from timestamps_equivalent_iff [OF l r _ t1 t2 nz nz] assms(5)
  show ?thesis by simp
qed

lemma iso_example:
  "areValuesEquivalent ex_runtime default_tolerances ''created''
     (JStr ''2023-01-01T12:00:00Z'') (JNum 1672574400000) = Inr True"
  by code_simp

text \<open>
  Claim C7, at the instant \<open>0\<close>.  Under the default tolerances (drift \<open>5\<close> seconds) the
  values \<open>0\<close> and \<open>1\<close> of a field \<open>timestamp\<close> are both detected as timestamps and
  convert to \<open>0\<close> and \<open>1000\<close> milliseconds, one second apart; \<open>areValuesEquivalent\<close>
  answers \<open>false\<close>, because \<open>areTimestampsEquivalent\<close> takes the converted value \<open>0\<close>
  for a failed conversion.
\<close>

theorem epoch_zero_not_equivalent:
  "isLikelyTimestamp ex_runtime default_tolerances ''timestamp'' (JNum 0) = Inr True
   \<and> isLikelyTimestamp ex_runtime default_tolerances ''timestamp'' (JNum 1) = Inr True
   \<and> toTimestamp ex_runtime (JNum 0) = Some 0
   \<and> toTimestamp ex_runtime (JNum 1) = Some 1000
   \<and> \<bar>0 - 1000\<bar> \<le> timestampDriftSeconds default_tolerances * 1000
   \<and> areValuesEquivalent ex_runtime default_tolerances ''timestamp'' (JNum 0) (JNum 1) = Inr False"
  by code_simp

section \<open>Templates without placeholder\<close>

lemma compile_render_static:
  "(\<forall>kvs. t = JObj kvs \<longrightarrow> \<not> has_placeholder t \<longrightarrow> \<not> has_array t \<longrightarrow>
      render_entries hb (compileObjectTemplate t) ctx = Inr kvs)"
  "\<not> list_ex (\<lambda>kv. has_placeholder (snd kv)) fs \<Longrightarrow> \<not> list_ex (\<lambda>kv. has_array (snd kv)) fs \<Longrightarrow>
     render_entries hb (compile_fields fs) ctx = Inr fs"
  "True"
  "\<not> has_placeholder v \<Longrightarrow> \<not> has_array v \<Longrightarrow> render_value hb (compile_value v) ctx = Inr v"
  for i :: nat and xs :: "json list"
proof (induction t and fs and i xs and v
    rule: compileObjectTemplate_compile_fields_compile_elems_compile_value.induct)
qed simp_all

lemma render_static_object:
  assumes "\<not> has_placeholder (JObj kvs)" and "\<not> has_array (JObj kvs)"
  shows "render hb (JObj kvs) ctx = Inr (JObj kvs)"
  using compile_render_static(1) [of "JObj kvs" hb ctx] assms
  by (simp add: render_def)

text \<open>
  Claim C9, at a template with an array.  The template
  \<open>{"name": "box", "tags": ["a", "b"]}\<close> has no placeholder; for every template engine
  and every context \<open>render\<close> returns \<open>{"name": "box", "tags": {"0": "a", "1": "b"}}\<close>,
  which is not the template: \<open>compileObjectTemplate\<close> rebuilds an array as an object
  keyed by the indices.
\<close>

theorem array_template_rendered_as_object:
  "\<not> has_placeholder ex_template_tags
   \<and> render hb ex_template_tags ctx
       = Inr (JObj [(''name'', JStr ''box''),
                    (''tags'', JObj [(''0'', JStr ''a''), (''1'', JStr ''b'')])])
   \<and> render hb ex_template_tags ctx \<noteq> Inr ex_template_tags"
  by code_simp

section \<open>Rendering errors\<close>

lemma render_compiled_raises:
  "render_entries hb (compileObjectTemplate t) ctx = Inl e \<Longrightarrow>
     \<exists>s \<in> set (placeholder_strings t). hb s ctx = Inl e"
  "render_entries hb (compile_fields fs) ctx = Inl e \<Longrightarrow>
     \<exists>s \<in> set (concat (map (\<lambda>kv. placeholder_strings (snd kv)) fs)). hb s ctx = Inl e"
  "render_entries hb (compile_elems i xs) ctx = Inl e \<Longrightarrow>
     \<exists>s \<in> set (concat (map placeholder_strings xs)). hb s ctx = Inl e"
  "render_value hb (compile_value v) ctx = Inl e \<Longrightarrow>
     \<exists>s \<in> set (placeholder_strings v). hb s ctx = Inl e"
proof (induction t and fs and i xs and v
    rule: compileObjectTemplate_compile_fields_compile_elems_compile_value.induct)
qed (auto split: sum.splits if_splits)

lemma render_compiled_returns:
  "\<forall>s \<in> set (placeholder_strings t). \<forall>e. hb s ctx \<noteq> Inl e \<Longrightarrow>
     \<exists>kvs. render_entries hb (compileObjectTemplate t) ctx = Inr kvs"
  "\<forall>s \<in> set (concat (map (\<lambda>kv. placeholder_strings (snd kv)) fs)). \<forall>e. hb s ctx \<noteq> Inl e \<Longrightarrow>
     \<exists>kvs. render_entries hb (compile_fields fs) ctx = Inr kvs"
  "\<forall>s \<in> set (concat (map placeholder_strings xs)). \<forall>e. hb s ctx \<noteq> Inl e \<Longrightarrow>
     \<exists>kvs. render_entries hb (compile_elems i xs) ctx = Inr kvs"
  "\<forall>s \<in> set (placeholder_strings v). \<forall>e. hb s ctx \<noteq> Inl e \<Longrightarrow>
     \<exists>w. render_value hb (compile_value v) ctx = Inr w"
proof (induction t and fs and i xs and v
    rule: compileObjectTemplate_compile_fields_compile_elems_compile_value.induct)
qed (fastforce split: sum.splits if_splits)+

lemma split_on_absent: "sep \<notin> set s \<Longrightarrow> split_on sep s = [s]"
  by (induction s) auto

lemma hb_id_char_plain:
  assumes "hb_id_char c"
  shows "c \<noteq> CHR ''}''" "c \<noteq> CHR '' ''" "c \<noteq> CHR ''.''"
  using assms by (auto simp: hb_id_char_def)

lemma hb_inner_identifier:
  "list_all hb_id_char name \<Longrightarrow> hb_inner acc (name @ ''}}'') = Some [Mustache (rev acc @ name)]"
proof (induction name arbitrary: acc)
  case Nil
  show ?case by simp
next
  case (Cons c cs)
  then have c: "c \<noteq> CHR ''}''" and cs: "list_all hb_id_char cs"
    by (simp_all add: hb_id_char_plain)
  obtain d ds where d: "cs @ ''}}'' = d # ds" by (cases "cs @ ''}}''") auto
  have "hb_inner acc ((c # cs) @ ''}}'') = hb_inner (c # acc) (cs @ ''}}'')"
    using c by (simp add: d)
  with Cons.IH [OF cs, of "c # acc"] show ?case by simp
qed

lemma hb_tokens_mustache:
  assumes "list_all hb_id_char name"
  shows "hb_tokens (''{{'' @ name @ ''}}'') = Some [Mustache name]"
proof -
  have "hb_tokens (''{{'' @ name @ ''}}'') = hb_inner [] (name @ ''}}'')"
    by simp
  also have "\<dots> = Some [Mustache name]"
    using hb_inner_identifier [OF assms, of "[]"] by simp
  finally show ?thesis .
qed

lemma hb_path_identifier:
  assumes "hb_identifier name"
  shows "hb_path name = Some [name]"
proof -
  from assms have "list_all hb_id_char name" by (simp add: hb_identifier_def)
  then have "CHR ''.'' \<notin> set name"
    using hb_id_char_plain(3) by (auto simp: list_all_iff)
  then have "split_on CHR ''.'' name = [name]" by (rule split_on_absent)
  with assms show ?thesis by (simp add: hb_path_def)
qed

lemma hb_words_identifier:
  assumes "hb_identifier name"
  shows "filter (\<lambda>w. w \<noteq> []) (split_on CHR '' '' name) = [name]"
proof -
  from assms have "list_all hb_id_char name" and ne: "name \<noteq> []"
    by (simp_all add: hb_identifier_def)
  then have "CHR '' '' \<notin> set name"
    using hb_id_char_plain(2) by (auto simp: list_all_iff)
  then have "split_on CHR '' '' name = [name]" by (rule split_on_absent)
  with ne show ?thesis by simp
qed

lemma unresolved_placeholder_empty:
  assumes "hb_identifier name" and "map_of kvs name = None"
  shows "handlebars_simple (''{{'' @ name @ ''}}'') (JObj kvs) = Some (Inr [])"
proof -
  from assms(1) have id: "list_all hb_id_char name"
    by (simp add: hb_identifier_def)
  have "hb_mustache (JObj kvs) name = Some (Inr [])"
    by (simp add: hb_mustache_def hb_words_identifier [OF assms(1)]
          hb_path_identifier [OF assms(1)] assms(2))
  then show ?thesis
    unfolding handlebars_simple_def hb_tokens_mustache [OF id] by simp
qed

lemma render_raises_from_engine:
  assumes "render hb t ctx = Inl e" and "typeof t = ''string'' \<or> (typeof t = ''object'' \<and> t \<noteq> JNull)"
  shows "\<exists>s \<in> set (engine_strings t). hb s ctx = Inl e"
proof (cases t)
  case (JStr s)
  with assms(1) show ?thesis
    by (auto simp: render_def engine_strings_def split: sum.splits)
next
  case (JObj kvs)
  with assms(1) render_compiled_raises(1) [of hb t ctx e] show ?thesis
    by (auto simp: render_def engine_strings_def split: sum.splits)
next
  case (JArr xs)
  with assms(1) render_compiled_raises(1) [of hb t ctx e] show ?thesis
    by (auto simp: render_def engine_strings_def split: sum.splits)
qed (use assms(2) in auto)

lemma render_returns_without_exception:
  assumes "\<forall>s \<in> set (engine_strings t). \<forall>e. hb s ctx \<noteq> Inl e"
    and "typeof t = ''string'' \<or> (typeof t = ''object'' \<and> t \<noteq> JNull)"
  shows "\<exists>v. render hb t ctx = Inr v"
proof (cases t)
  case (JStr s)
  with assms(1) show ?thesis
    by (cases "hb s ctx") (auto simp: render_def engine_strings_def)
next
  case (JObj kvs)
  with assms(1) render_compiled_returns(1) [of t hb ctx] show ?thesis
    by (auto simp: render_def engine_strings_def split: sum.splits)
next
  case (JArr xs)
  with assms(1) render_compiled_returns(1) [of t hb ctx] show ?thesis
    by (auto simp: render_def engine_strings_def split: sum.splits)
qed (use assms(2) in auto)

lemma replayRequest_templates_raises:
  assumes "findMatchingTemplate request = Some matchingRoute"
    and "render hb (route_template matchingRoute) (buildContext request) = Inl e"
  shows "replayRequest_templates hb findMatchingTemplate buildContext useDynamicResponses
           super_replayRequest request = Inl e"
  using assms by (simp add: replayRequest_templates_def resolveResponse_def)


lemma nth_interactionResults:
  assumes "i < length interactions"
  shows "map (replay_interaction replayRequest compare) interactions ! i
       = replay_interaction replayRequest compare (interactions ! i)"
  using assms by simp

text \<open>
  Claim C8, as the code has it.  For a session that is loaded, an exception raised while
  an interaction's template is rendered leaves \<open>render\<close>, \<open>resolveResponse\<close> and
  \<open>replayRequest\<close>, and the replay records an error with its message for that
  interaction; \<open>summary.errors\<close> counts exactly the interactions recorded as errors.
  The rendering has no check of its own: when a string or object template raises, the
  engine raised that exception on one of the template's strings.  And the engine, in
  the default mode it is compiled in, does not raise on an unresolved placeholder: a
  mustache \<open>{{name}}\<close> of an identifier the context has no field for renders as the
  empty string.
\<close>

theorem rendering_exception_recorded:
  assumes "originalSessions sessionId = Some interactions"
  shows "(\<exists>res. replayAgainstContract originalSessions
                 (replayRequest_templates hb findMatchingTemplate buildContext useDynamicResponses
                    super_replayRequest) compare sessionId = Inr res
            \<and> length (interactionResults res) = length interactions
            \<and> (\<forall>i matchingRoute e. i < length interactions \<longrightarrow>
                  findMatchingTemplate (ia_request (interactions ! i)) = Some matchingRoute \<longrightarrow>
                  render hb (route_template matchingRoute)
                    (buildContext (ia_request (interactions ! i))) = Inl e \<longrightarrow>
                  interactionResults res ! i = Errored (ia_request (interactions ! i)) e)
            \<and> s_errors (res_summary res)
                = length (filter (\<lambda>r. ir_comparison r = None) (interactionResults res)))
     \<and> (render hb template ctx = Inl e \<longrightarrow>
          typeof template = ''string'' \<or> (typeof template = ''object'' \<and> template \<noteq> JNull) \<longrightarrow>
          (\<exists>s \<in> set (engine_strings template). hb s ctx = Inl e))
     \<and> (hb_identifier name \<longrightarrow> map_of kvs name = None \<longrightarrow>
          handlebars_simple (''{{'' @ name @ ''}}'') (JObj kvs) = Some (Inr []))"
proof (intro conjI impI)
  let ?replay = "replayRequest_templates hb findMatchingTemplate buildContext useDynamicResponses
                    super_replayRequest"
  let ?rs = "map (replay_interaction ?replay compare) interactions"
  note r = replayAgainstContract_result
    [where originalSessions = originalSessions and sessionId = sessionId
       and replayRequest = ?replay and compare = compare, OF assms]
  have err: "?rs ! i = Errored (ia_request (interactions ! i)) e"
    if "i < length interactions"
      and "findMatchingTemplate (ia_request (interactions ! i)) = Some matchingRoute"
      and "render hb (route_template matchingRoute) (buildContext (ia_request (interactions ! i))) = Inl e"
    for i matchingRoute e
  proof -
    from that(2,3) have "?replay (ia_request (interactions ! i)) = Inl e"
      by (rule replayRequest_templates_raises)
    then have "replay_interaction ?replay compare (interactions ! i)
             = Errored (ia_request (interactions ! i)) e"
      by (simp add: replay_interaction_def)
    with that(1) show ?thesis by simp
  qed
  show "\<exists>res. replayAgainstContract originalSessions ?replay compare sessionId = Inr res
            \<and> length (interactionResults res) = length interactions
            \<and> (\<forall>i matchingRoute e. i < length interactions \<longrightarrow>
                  findMatchingTemplate (ia_request (interactions ! i)) = Some matchingRoute \<longrightarrow>
                  render hb (route_template matchingRoute)
                    (buildContext (ia_request (interactions ! i))) = Inl e \<longrightarrow>
                  interactionResults res ! i = Errored (ia_request (interactions ! i)) e)
            \<and> s_errors (res_summary res)
                = length (filter (\<lambda>r. ir_comparison r = None) (interactionResults res))"
    unfolding r using err by (simp add: fold_count_result)
next
  assume "render hb template ctx = Inl e"
    and "typeof template = ''string'' \<or> (typeof template = ''object'' \<and> template \<noteq> JNull)"
  then show "\<exists>s \<in> set (engine_strings template). hb s ctx = Inl e"
    by (rule render_raises_from_engine)
next
  assume "hb_identifier name" and "map_of kvs name = None"
  then show "handlebars_simple (''{{'' @ name @ ''}}'') (JObj kvs) = Some (Inr [])"
    by (rule unresolved_placeholder_empty)
qed

text \<open>
  An instance: the template \<open>Hello {{shout userName}}\<close> calls a helper that is not
  registered, the engine throws, and the interaction is recorded as an error.
\<close>

theorem rendering_exception_recorded_witness:
  "\<exists>res. replayAgainstContract (ex_session ex_greeting_recorded)
           (replayRequest_templates ex_Handlebars (ex_findMatchingTemplate ex_template_shout)
              ex_buildContext True ex_live)
           (returning (compareResponses ex_JSON_parse ex_toLowerCase default_verifier_options)) ''s1'' = Inr res
     \<and> interactionResults res = [Errored ex_request (missing_helper ''shout'')]
     \<and> s_errors (res_summary res) = 1
     \<and> (\<exists>s \<in> set (engine_strings ex_template_shout).
           ex_Handlebars s (ex_buildContext ex_request) = Inl (missing_helper ''shout''))
     \<and> handlebars_simple ''{{userName}}'' (JObj []) = Some (Inr [])"
proof -
  let ?ias = "[\<lparr> ia_request = ex_request, ia_response = ex_greeting_recorded \<rparr>]"
  let ?route = "\<lparr> route_template = ex_template_shout, route_statusCode = 200,
                   route_headers = [(''Content-Type'', JStr ''application/json'')] \<rparr>"
  have s: "ex_session ex_greeting_recorded ''s1'' = Some ?ias"
    by (simp add: ex_session_def)
  have f: "ex_findMatchingTemplate ex_template_shout (ia_request (?ias ! 0)) = Some ?route"
    by (simp add: ex_findMatchingTemplate_def ex_request_def)
  have e: "render ex_Handlebars (route_template ?route) (ex_buildContext (ia_request (?ias ! 0)))
         = Inl (missing_helper ''shout'')"
    by code_simp
  from rendering_exception_recorded [where originalSessions = "ex_session ex_greeting_recorded"
      and sessionId = "''s1''" and hb = ex_Handlebars
      and findMatchingTemplate = "ex_findMatchingTemplate ex_template_shout"
      and buildContext = ex_buildContext and useDynamicResponses = True
      and super_replayRequest = ex_live
      and compare = "returning (compareResponses ex_JSON_parse ex_toLowerCase default_verifier_options)", OF s, THEN conjunct1]
  obtain res where r: "replayAgainstContract (ex_session ex_greeting_recorded)
           (replayRequest_templates ex_Handlebars (ex_findMatchingTemplate ex_template_shout)
              ex_buildContext True ex_live)
           (returning (compareResponses ex_JSON_parse ex_toLowerCase default_verifier_options)) ''s1'' = Inr res"
    and len: "length (interactionResults res) = length ?ias"
    and err: "\<forall>i matchingRoute e. i < length ?ias \<longrightarrow>
                  ex_findMatchingTemplate ex_template_shout (ia_request (?ias ! i)) = Some matchingRoute \<longrightarrow>
                  render ex_Handlebars (route_template matchingRoute)
                    (ex_buildContext (ia_request (?ias ! i))) = Inl e \<longrightarrow>
                  interactionResults res ! i = Errored (ia_request (?ias ! i)) e"
    and cnt: "s_errors (res_summary res)
                = length (filter (\<lambda>r. ir_comparison r = None) (interactionResults res))"
    by blast
  from err [rule_format, of 0, OF _ f e]
  have 0: "interactionResults res ! 0 = Errored ex_request (missing_helper ''shout'')" by simp
  from len obtain x where x: "interactionResults res = [x]"
    by (cases "interactionResults res") auto
  with 0 have l: "interactionResults res = [Errored ex_request (missing_helper ''shout'')]" by simp
  with cnt have "s_errors (res_summary res) = 1" by simp
  have t: "typeof ex_template_shout = ''string''
           \<or> (typeof ex_template_shout = ''object'' \<and> ex_template_shout \<noteq> JNull)"
    by (simp add: ex_template_shout_def)
  have e': "render ex_Handlebars ex_template_shout (ex_buildContext ex_request)
         = Inl (missing_helper ''shout'')"
    by code_simp
  from rendering_exception_recorded [where originalSessions = "ex_session ex_greeting_recorded"
      and sessionId = "''s1''" and hb = ex_Handlebars and template = ex_template_shout
      and ctx = "ex_buildContext ex_request" and e = "missing_helper ''shout''",
      OF s, THEN conjunct2, THEN conjunct1, rule_format, OF e' t]
  have 2: "\<exists>s \<in> set (engine_strings ex_template_shout).
           ex_Handlebars s (ex_buildContext ex_request) = Inl (missing_helper ''shout'')" .
  have id: "hb_identifier ''userName''" by code_simp
  from rendering_exception_recorded [where originalSessions = "ex_session ex_greeting_recorded"
      and sessionId = "''s1''" and name = "''userName''" and kvs = "[]",
      OF s, THEN conjunct2, THEN conjunct2, rule_format, OF id]
  have 3: "handlebars_simple ''{{userName}}'' (JObj []) = Some (Inr [])" by simp
  from r l \<open>s_errors (res_summary res) = 1\<close> 2 3 show ?thesis by blast
qed

text \<open>
  The template \<open>Hello {{userName}}\<close> rendered in a context without \<open>userName\<close>: the
  response body is \<open>{"greeting": "Hello "}\<close>, no error is recorded, and the replay
  counts the interaction as compatible with a recording of that body.
\<close>

theorem unresolved_placeholder_renders_empty:
  "handlebars_simple ''Hello {{userName}}'' (ex_buildContext ex_request) = Some (Inr ''Hello '')
   \<and> render ex_Handlebars ex_template_greeting (ex_buildContext ex_request)
       = Inr (JObj [(''greeting'', JStr ''Hello '')])
   \<and> map_sum id (s_errors \<circ> res_summary)
        (replayAgainstContract (ex_session ex_greeting_recorded)
           (replayRequest_templates ex_Handlebars (ex_findMatchingTemplate ex_template_greeting)
              ex_buildContext True ex_live)
           (returning (compareResponses ex_JSON_parse ex_toLowerCase default_verifier_options)) ''s1'') = Inr 0
   \<and> map_sum id (s_compatible \<circ> res_summary)
        (replayAgainstContract (ex_session ex_greeting_recorded)
           (replayRequest_templates ex_Handlebars (ex_findMatchingTemplate ex_template_greeting)
              ex_buildContext True ex_live)
           (returning (compareResponses ex_JSON_parse ex_toLowerCase default_verifier_options)) ''s1'') = Inr 1"
  by code_simp

end
